theory Spec2Isabelle
  imports Complex_Main
begin

section \<open>Values of the host language\<close>

text \<open>
  The program is TypeScript. A \<open>number\<close> is modelled as a real (exact arithmetic, no NaN and
  no infinities); the value read from an optional field is \<open>None\<close> when it is
  \<open>undefined\<close>, whether the object lacks the property or has it with that value (where
  an object is the argument of a spread the two cases are kept apart, see \<open>Property\<close>
  below). A wall-clock reading
  (\<open>Date.now()\<close>) is an integer count of milliseconds and is always an explicit argument;
  an ISO time stamp made by \<open>new Date().toISOString()\<close> and read back by
  \<open>new Date(s).getTime()\<close> is modelled by that same integer.
\<close>

text \<open>Truthiness of an optional number, as \<open>if (x)\<close> and \<open>x && y\<close> test it:
  \<open>undefined\<close> and \<open>0\<close> are falsy.\<close>

definition truthy :: "real option \<Rightarrow> bool" where
  "truthy v = (case v of None \<Rightarrow> False | Some x \<Rightarrow> x \<noteq> 0)"

text \<open>A property of an object whose properties are optional (a \<open>Partial<T>\<close>, or the
  argument of an object spread): the object lacks it, or it has it with a value, and that
  value can be \<open>undefined\<close> (\<open>None\<close>).\<close>

datatype 'a Property = Absent | Present "'a option"

text \<open>A \<open>Map\<close> keeps its entries in insertion order; \<open>set\<close> on a key that is present
  replaces the value in place, on a new key it appends.\<close>

fun map_set :: "'k \<Rightarrow> 'v \<Rightarrow> ('k \<times> 'v) list \<Rightarrow> ('k \<times> 'v) list" where
  "map_set k v [] = [(k, v)]"
| "map_set k v ((k', v') # m) =
     (if k' = k then (k, v) # m else (k', v') # map_set k v m)"

definition map_get :: "('k \<times> 'v) list \<Rightarrow> 'k \<Rightarrow> 'v option" where
  "map_get m k = map_of m k"

definition map_has :: "('k \<times> 'v) list \<Rightarrow> 'k \<Rightarrow> bool" where
  "map_has m k = (map_of m k \<noteq> None)"

definition map_values :: "('k \<times> 'v) list \<Rightarrow> 'v list" where
  "map_values m = map snd m"

section \<open>types.ts\<close>

datatype Chain = ethereum | base | arbitrum | optimism | polygon | bsc | avalanche | solana

datatype ScanMode = accumulation | distribution | breakout | fresh_wallets

fun chain_str :: "Chain \<Rightarrow> string" where
  "chain_str ethereum = ''ethereum''"
| "chain_str base = ''base''"
| "chain_str arbitrum = ''arbitrum''"
| "chain_str optimism = ''optimism''"
| "chain_str polygon = ''polygon''"
| "chain_str bsc = ''bsc''"
| "chain_str avalanche = ''avalanche''"
| "chain_str solana = ''solana''"

fun mode_str :: "ScanMode \<Rightarrow> string" where
  "mode_str accumulation = ''accumulation''"
| "mode_str distribution = ''distribution''"
| "mode_str breakout = ''breakout''"
| "mode_str fresh_wallets = ''fresh-wallets''"

record OpportunitySignal =
  sig_type :: ScanMode
  token :: string
  symbol :: string
  sig_chain :: Chain
  score :: real
  reason :: string
  metrics :: "string \<rightharpoonup> real"
  timestamp :: string

section \<open>Signal log\<close>

datatype Action = buy | sell | skip

text \<open>\<open>SignalOutcome\<close>, by the value read from each field. The stored outcome can lack
  \<open>action\<close> (\<open>recordOutcome\<close> casts the merged object), so that field is optional here
  as well.\<close>

record SignalOutcome =
  action :: "Action option"
  executedAt :: "int option"
  entryPrice :: "real option"
  exitPrice :: "real option"
  pnl :: "real option"
  pnlPercent :: "real option"
  out_notes :: "string option"

record LoggedSignal = OpportunitySignal +
  sig_id :: string
  loggedAt :: int
  acted :: bool
  outcome :: "SignalOutcome option"

text \<open>The state of a \<open>SignalLog\<close>: the map of signals, the \<open>autoSave\<close> flag and the
  snapshot last written by \<open>save()\<close> (the file is assumed to be writable).\<close>

record SignalLog =
  signals :: "(string \<times> LoggedSignal) list"
  autoSave :: bool
  saved :: "LoggedSignal list option"

definition new_SignalLog :: "bool \<Rightarrow> SignalLog" where
  "new_SignalLog auto = \<lparr>signals = [], autoSave = auto, saved = None\<rparr>"

definition generateId :: "'a OpportunitySignal_scheme \<Rightarrow> string" where
  "generateId s =
     chain_str (sig_chain s) @ '':'' @ token s @ '':'' @ mode_str (sig_type s) @ '':'' @ timestamp s"

definition save :: "SignalLog \<Rightarrow> SignalLog" where
  "save l = l\<lparr>saved := Some (map_values (signals l))\<rparr>"

definition auto_save :: "SignalLog \<Rightarrow> SignalLog" where
  "auto_save l = (if autoSave l then save l else l)"

text \<open>The entry \<open>{...signal, id, loggedAt, acted: false}\<close> for a candidate. The spread
  copies every own property of the object, so an \<open>outcome\<close> property that the object
  carries besides the declared ones stays in the entry: \<open>own s\<close> is that property, \<open>None\<close>
  when the object has none.\<close>

definition new_entry ::
  "('a OpportunitySignal_scheme \<Rightarrow> SignalOutcome option) \<Rightarrow> 'a OpportunitySignal_scheme \<Rightarrow> int \<Rightarrow>
     LoggedSignal" where
  "new_entry own s now =
     \<lparr>sig_type = sig_type s, token = token s, symbol = symbol s, sig_chain = sig_chain s,
      score = score s, reason = reason s, metrics = metrics s, timestamp = timestamp s,
      sig_id = generateId s, loggedAt = now, acted = False, outcome = own s\<rparr>"

text \<open>An object with the properties of \<open>OpportunitySignal\<close> and no \<open>outcome\<close>.\<close>

definition no_outcome :: "'a OpportunitySignal_scheme \<Rightarrow> SignalOutcome option" where
  "no_outcome s = None"

definition log_signal ::
  "('a OpportunitySignal_scheme \<Rightarrow> SignalOutcome option) \<Rightarrow> SignalLog \<Rightarrow> int \<Rightarrow>
     'a OpportunitySignal_scheme \<Rightarrow> LoggedSignal \<times> SignalLog" where
  "log_signal own l now s =
     (let i = generateId s in
      case map_get (signals l) i of
        Some existing \<Rightarrow> (existing, l)
      | None \<Rightarrow>
          (let logged = new_entry own s now
           in (logged, auto_save (l\<lparr>signals := map_set i logged (signals l)\<rparr>))))"

fun logBatch_loop ::
  "('a OpportunitySignal_scheme \<Rightarrow> SignalOutcome option) \<Rightarrow> (string \<times> LoggedSignal) list \<Rightarrow> int \<Rightarrow>
     'a OpportunitySignal_scheme list \<Rightarrow> LoggedSignal list \<times> (string \<times> LoggedSignal) list" where
  "logBatch_loop own m now [] = ([], m)"
| "logBatch_loop own m now (s # ss) =
     (let i = generateId s in
      case map_get m i of
        Some existing \<Rightarrow> (let (r, m') = logBatch_loop own m now ss in (existing # r, m'))
      | None \<Rightarrow>
          (let entry = new_entry own s now;
               (r, m') = logBatch_loop own (map_set i entry m) now ss
           in (entry # r, m')))"

definition logBatch ::
  "('a OpportunitySignal_scheme \<Rightarrow> SignalOutcome option) \<Rightarrow> SignalLog \<Rightarrow> int \<Rightarrow>
     'a OpportunitySignal_scheme list \<Rightarrow> LoggedSignal list \<times> SignalLog" where
  "logBatch own l now ss =
     (let (r, m') = logBatch_loop own (signals l) now ss
      in (r, auto_save (l\<lparr>signals := m'\<rparr>)))"

definition markActed ::
  "SignalLog \<Rightarrow> int \<Rightarrow> string \<Rightarrow> Action \<Rightarrow> string option \<Rightarrow> LoggedSignal option \<times> SignalLog" where
  "markActed l now i a n =
     (case map_get (signals l) i of
        None \<Rightarrow> (None, l)
      | Some signal \<Rightarrow>
          (let signal' = signal\<lparr>acted := True,
                 outcome := Some \<lparr>action = Some a, executedAt = Some now, entryPrice = None,
                                  exitPrice = None, pnl = None, pnlPercent = None, out_notes = n\<rparr>\<rparr>
           in (Some signal', auto_save (l\<lparr>signals := map_set i signal' (signals l)\<rparr>))))"

text \<open>\<open>Partial<SignalOutcome>\<close>: each property absent, or present with a value that can be
  \<open>undefined\<close>. \<open>no_properties\<close> is the object \<open>{}\<close>.\<close>

record PartialOutcome =
  p_action :: "Action Property"
  p_executedAt :: "int Property"
  p_entryPrice :: "real Property"
  p_exitPrice :: "real Property"
  p_pnl :: "real Property"
  p_pnlPercent :: "real Property"
  p_notes :: "string Property"

definition no_properties :: PartialOutcome where
  "no_properties = \<lparr>p_action = Absent, p_executedAt = Absent, p_entryPrice = Absent,
                     p_exitPrice = Absent, p_pnl = Absent, p_pnlPercent = Absent,
                     p_notes = Absent\<rparr>"

text \<open>One field of \<open>{...old, ...new}\<close>: the spread copies every own property of \<open>new\<close>,
  also one whose value is \<open>undefined\<close>; the old value stays only where \<open>new\<close> lacks the
  property.\<close>

definition spread :: "'a option \<Rightarrow> 'a Property \<Rightarrow> 'a option" where
  "spread old new = (case new of Absent \<Rightarrow> old | Present v \<Rightarrow> v)"

definition empty_outcome :: SignalOutcome where
  "empty_outcome = \<lparr>action = None, executedAt = None, entryPrice = None, exitPrice = None,
                     pnl = None, pnlPercent = None, out_notes = None\<rparr>"

definition merge_outcome :: "SignalOutcome option \<Rightarrow> PartialOutcome \<Rightarrow> SignalOutcome" where
  "merge_outcome old new =
     (let b = (case old of None \<Rightarrow> empty_outcome | Some x \<Rightarrow> x) in
      \<lparr>action = spread (action b) (p_action new),
       executedAt = spread (executedAt b) (p_executedAt new),
       entryPrice = spread (entryPrice b) (p_entryPrice new),
       exitPrice = spread (exitPrice b) (p_exitPrice new),
       pnl = spread (pnl b) (p_pnl new),
       pnlPercent = spread (pnlPercent b) (p_pnlPercent new),
       out_notes = spread (out_notes b) (p_notes new)\<rparr>)"

text \<open>The guard \<open>if (entryPrice && exitPrice)\<close> and the two assignments under it.\<close>

definition derive_pnl :: "SignalOutcome \<Rightarrow> SignalOutcome" where
  "derive_pnl out =
     (if truthy (entryPrice out) \<and> truthy (exitPrice out) then
        (let p = the (exitPrice out) - the (entryPrice out)
         in out\<lparr>pnl := Some p, pnlPercent := Some (p / the (entryPrice out) * 100)\<rparr>)
      else out)"

definition recordOutcome ::
  "SignalLog \<Rightarrow> string \<Rightarrow> PartialOutcome \<Rightarrow> LoggedSignal option \<times> SignalLog" where
  "recordOutcome l i out =
     (case map_get (signals l) i of
        None \<Rightarrow> (None, l)
      | Some signal \<Rightarrow>
          (let signal' = signal\<lparr>outcome := Some (derive_pnl (merge_outcome (outcome signal) out))\<rparr>
           in (Some signal', auto_save (l\<lparr>signals := map_set i signal' (signals l)\<rparr>))))"

text \<open>\<open>hasRecentSignal\<close>: the loop over the stored values returns at the first match.\<close>

definition hasRecentSignal :: "SignalLog \<Rightarrow> int \<Rightarrow> 'a OpportunitySignal_scheme \<Rightarrow> int \<Rightarrow> bool" where
  "hasRecentSignal l now s withinMs =
     (let cutoff = now - withinMs in
      list_ex (\<lambda>logged. token logged = token s \<and> sig_chain logged = sig_chain s \<and>
                         sig_type logged = sig_type s \<and> loggedAt logged > cutoff)
              (map_values (signals l)))"

text \<open>The two facts every store built by this class satisfies: the keys of the map are
  distinct (it is a \<open>Map\<close>), and every entry is filed under its own \<open>id\<close>
  (\<open>log\<close>, \<open>logBatch\<close> and \<open>load\<close> all call \<open>signals.set(signal.id, signal)\<close>).\<close>

definition log_inv :: "SignalLog \<Rightarrow> bool" where
  "log_inv l = (distinct (map fst (signals l)) \<and> list_all (\<lambda>e. sig_id (snd e) = fst e) (signals l))"

text \<open>How many stored records carry a given id.\<close>

definition records_with_id :: "SignalLog \<Rightarrow> string \<Rightarrow> nat" where
  "records_with_id l i = length (filter (\<lambda>v. sig_id v = i) (map_values (signals l)))"

text \<open>The outcome recorded for an id, if the id is stored and has one.\<close>

definition stored_outcome :: "SignalLog \<Rightarrow> string \<Rightarrow> SignalOutcome option" where
  "stored_outcome l i = (case map_get (signals l) i of None \<Rightarrow> None | Some s \<Rightarrow> outcome s)"










section \<open>Trader: risk filtering, deduplication and scoring\<close>

text \<open>\<open>RiskConfig\<close>. \<open>minScore\<close> is a number in every configuration a trader holds; the
  configuration merged for one scan lacks it when the override carries the property with
  the value \<open>undefined\<close>, so the field is optional here.\<close>

record RiskConfig =
  minScore :: "real option"
  maxSignalsPerScan :: int
  dedupeWindowMs :: int
  allowedChains :: "Chain list option"
  excludedChains :: "Chain list option"
  minLiquidity :: "real option"
  minHolders :: "real option"
  maxMcap :: "real option"
  minMcap :: "real option"
  minSmartMoneyBuyers :: "real option"
  minNetflowUsd :: "real option"
  minFreshWallets :: "real option"

definition DEFAULT_RISK_CONFIG :: RiskConfig where
  "DEFAULT_RISK_CONFIG =
     \<lparr>minScore = Some 2.0, maxSignalsPerScan = 10, dedupeWindowMs = 60 * 60 * 1000,
      allowedChains = None, excludedChains = None,
      minLiquidity = Some 10000, minHolders = Some 100, maxMcap = None, minMcap = None,
      minSmartMoneyBuyers = Some 3, minNetflowUsd = Some 10000, minFreshWallets = Some 5\<rparr>"

text \<open>\<open>Partial<RiskConfig>\<close>, and the object spread \<open>{...config, ...override}\<close>.\<close>

record PartialRiskConfig =
  p_minScore :: "real Property"
  p_maxSignalsPerScan :: "int Property"
  p_dedupeWindowMs :: "int Property"
  p_allowedChains :: "Chain list Property"
  p_excludedChains :: "Chain list Property"
  p_minLiquidity :: "real Property"
  p_minHolders :: "real Property"
  p_maxMcap :: "real Property"
  p_minMcap :: "real Property"
  p_minSmartMoneyBuyers :: "real Property"
  p_minNetflowUsd :: "real Property"
  p_minFreshWallets :: "real Property"

text \<open>A default as \<open>??\<close> and a destructuring default give it: the old value where the new
  one is \<open>undefined\<close>.\<close>

definition override :: "'a \<Rightarrow> 'a option \<Rightarrow> 'a" where
  "override old new = (case new of None \<Rightarrow> old | Some v \<Rightarrow> v)"

text \<open>The spread of a property that is a number in \<open>RiskConfig\<close>; \<open>undef\<close> stands in where the
  override carries the property with the value \<open>undefined\<close>. For \<open>dedupeWindowMs\<close> the one
  reader of the merged value is \<open>hasRecentSignal(signal, windowMs)\<close>, whose default
  parameter 3600000 then applies; \<open>maxSignalsPerScan\<close> of the merged object is never read
  (the limit of a scan comes from the trader's own configuration).\<close>

definition spread_number :: "'a \<Rightarrow> 'a \<Rightarrow> 'a Property \<Rightarrow> 'a" where
  "spread_number old undef new =
     (case new of Absent \<Rightarrow> old | Present None \<Rightarrow> undef | Present (Some v) \<Rightarrow> v)"

definition merge_risk :: "RiskConfig \<Rightarrow> PartialRiskConfig option \<Rightarrow> RiskConfig" where
  "merge_risk r po =
     (case po of
        None \<Rightarrow> r
      | Some p \<Rightarrow>
          \<lparr>minScore = spread (minScore r) (p_minScore p),
           maxSignalsPerScan =
             spread_number (maxSignalsPerScan r) (maxSignalsPerScan r) (p_maxSignalsPerScan p),
           dedupeWindowMs = spread_number (dedupeWindowMs r) 3600000 (p_dedupeWindowMs p),
           allowedChains = spread (allowedChains r) (p_allowedChains p),
           excludedChains = spread (excludedChains r) (p_excludedChains p),
           minLiquidity = spread (minLiquidity r) (p_minLiquidity p),
           minHolders = spread (minHolders r) (p_minHolders p),
           maxMcap = spread (maxMcap r) (p_maxMcap p),
           minMcap = spread (minMcap r) (p_minMcap p),
           minSmartMoneyBuyers = spread (minSmartMoneyBuyers r) (p_minSmartMoneyBuyers p),
           minNetflowUsd = spread (minNetflowUsd r) (p_minNetflowUsd p),
           minFreshWallets = spread (minFreshWallets r) (p_minFreshWallets p)\<rparr>)"

datatype Recommendation = strong_buy | rec_buy | watch | avoid

datatype TradeAction = trade_buy | trade_sell | trade_wait

datatype Urgency = urgency_high | urgency_medium | urgency_low

datatype PositionSize = size_small | size_medium | size_large

record SuggestedAction =
  sa_action :: TradeAction
  urgency :: Urgency
  reasoning :: string
  targetChain :: Chain
  targetToken :: string
  positionSizeHint :: PositionSize

text \<open>What \<open>enrichWithMcp\<close> attaches to a signal: the analysis, or the message of the error
  that was caught.\<close>

datatype McpAnalysis = Analysis string | AnalysisError string

record TradingSignal = LoggedSignal +
  riskScore :: int
  riskFactors :: "string list"
  recommendation :: Recommendation
  confidence :: real
  suggestedAction :: "SuggestedAction option"
  mcpAnalysis :: "McpAnalysis option"

definition filterChains :: "Chain list \<Rightarrow> RiskConfig \<Rightarrow> Chain list" where
  "filterChains cs risk =
     (let filtered1 = (case allowedChains risk of
                         None \<Rightarrow> cs
                       | Some a \<Rightarrow> if a \<noteq> [] then filter (\<lambda>c. List.member a c) cs
                                   else cs)
      in (case excludedChains risk of
            None \<Rightarrow> filtered1
          | Some e \<Rightarrow> if e \<noteq> [] then filter (\<lambda>c. \<not> List.member e c) filtered1
                      else filtered1))"

text \<open>The predicate of \<open>applyRiskFilters\<close>. The comparison \<open>s.score < risk.minScore\<close> is
  false when \<open>minScore\<close> is \<open>undefined\<close>. Each metric test is the conjunction
  \<open>risk.t && m.x && m.x < risk.t\<close>: the comparison is reached only when the threshold and
  the metric are both truthy.\<close>

definition passesRiskFilters :: "RiskConfig \<Rightarrow> 'a OpportunitySignal_scheme \<Rightarrow> bool" where
  "passesRiskFilters risk s =
     (if (case minScore risk of None \<Rightarrow> False | Some least \<Rightarrow> score s < least) then False
      else let m = metrics s in
        if truthy (minSmartMoneyBuyers risk) \<and> truthy (m ''buyers'')
           \<and> the (m ''buyers'') < the (minSmartMoneyBuyers risk) then False
        else if truthy (minNetflowUsd risk) \<and> truthy (m ''netflow24h'')
           \<and> \<bar>the (m ''netflow24h'')\<bar> < the (minNetflowUsd risk) then False
        else if truthy (minFreshWallets risk) \<and> truthy (m ''freshWallets'')
           \<and> the (m ''freshWallets'') < the (minFreshWallets risk) then False
        else True)"

definition applyRiskFilters ::
  "'a OpportunitySignal_scheme list \<Rightarrow> RiskConfig \<Rightarrow> 'a OpportunitySignal_scheme list" where
  "applyRiskFilters sigs risk = filter (passesRiskFilters risk) sigs"

text \<open>The threshold filter as the specification words it: a candidate is dropped when its
  score is below \<open>minScore\<close>, or when a threshold is configured and the corresponding metric
  is present on the candidate and below it (the netflow compared by absolute value).\<close>

definition below_threshold :: "real option \<Rightarrow> real option \<Rightarrow> bool" where
  "below_threshold threshold metric =
     (case threshold of
        None \<Rightarrow> False
      | Some t \<Rightarrow> (case metric of None \<Rightarrow> False | Some v \<Rightarrow> v < t))"

definition spec_drops :: "RiskConfig \<Rightarrow> 'a OpportunitySignal_scheme \<Rightarrow> bool" where
  "spec_drops risk s =
     (below_threshold (minScore risk) (Some (score s))
      \<or> below_threshold (minSmartMoneyBuyers risk) (metrics s ''buyers'')
      \<or> below_threshold (minNetflowUsd risk) (map_option abs (metrics s ''netflow24h''))
      \<or> below_threshold (minFreshWallets risk) (metrics s ''freshWallets''))"

definition dedupe_key :: "'a OpportunitySignal_scheme \<Rightarrow> string" where
  "dedupe_key s = chain_str (sig_chain s) @ '':'' @ token s"

text \<open>The loop of \<open>deduplicateSignals\<close> over the map \<open>seen\<close>; \<open>recent\<close> is the test
  \<open>this.signalLog.hasRecentSignal(signal, windowMs)\<close>.\<close>

fun dedupe_loop ::
  "('a OpportunitySignal_scheme \<Rightarrow> bool) \<Rightarrow> (string \<times> 'a OpportunitySignal_scheme) list \<Rightarrow>
     'a OpportunitySignal_scheme list \<Rightarrow> (string \<times> 'a OpportunitySignal_scheme) list" where
  "dedupe_loop recent seen [] = seen"
| "dedupe_loop recent seen (s # ss) =
     (if recent s then dedupe_loop recent seen ss
      else case map_get seen (dedupe_key s) of
             None \<Rightarrow> dedupe_loop recent (map_set (dedupe_key s) s seen) ss
           | Some existing \<Rightarrow>
               if score s > score existing
               then dedupe_loop recent (map_set (dedupe_key s) s seen) ss
               else dedupe_loop recent seen ss)"

definition deduplicateSignals ::
  "SignalLog \<Rightarrow> int \<Rightarrow> 'a OpportunitySignal_scheme list \<Rightarrow> int \<Rightarrow> 'a OpportunitySignal_scheme list" where
  "deduplicateSignals l now sigs windowMs =
     map_values (dedupe_loop (\<lambda>s. hasRecentSignal l now s windowMs) [] sigs)"

text \<open>The map \<open>seen\<close> files every candidate under its own key.\<close>

definition keyed :: "(string \<times> 'a OpportunitySignal_scheme) list \<Rightarrow> bool" where
  "keyed m = (distinct (map fst m) \<and> list_all (\<lambda>e. dedupe_key (snd e) = fst e) m)"

text \<open>What the loop of \<open>deduplicateSignals\<close> leaves in \<open>seen\<close> under one key, followed
  through the batch.\<close>

fun best_for ::
  "('a OpportunitySignal_scheme \<Rightarrow> bool) \<Rightarrow> string \<Rightarrow> 'a OpportunitySignal_scheme option \<Rightarrow>
     'a OpportunitySignal_scheme list \<Rightarrow> 'a OpportunitySignal_scheme option" where
  "best_for recent k cur [] = cur"
| "best_for recent k cur (s # ss) =
     best_for recent k
       (if dedupe_key s = k \<and> \<not> recent s
           \<and> (case cur of None \<Rightarrow> True | Some existing \<Rightarrow> score s > score existing)
        then Some s else cur) ss"

text \<open>\<open>Array.prototype.join\<close>.\<close>

fun join :: "string \<Rightarrow> string list \<Rightarrow> string" where
  "join sep [] = []"
| "join sep [x] = x"
| "join sep (x # y # ys) = x @ sep @ join sep (y # ys)"

text \<open>The body of the \<open>map\<close> callback of \<open>scoreSignals\<close>, in four steps: the score and
  the factors, the recommendation, the suggested action, the resulting object.\<close>

definition risk_assessment :: "'a OpportunitySignal_scheme \<Rightarrow> int \<times> string list" where
  "risk_assessment s =
     (let r0 = (if score s > 5 then 2 else if score s > 3 then 1 else 0);
          m = metrics s;
          (r1, f1) = (if truthy (m ''buyers'') \<and> truthy (m ''sellers'')
                         \<and> the (m ''buyers'') > the (m ''sellers'') * 2
                      then (r0 + 1, [''Strong buyer/seller ratio'']) else (r0, []));
          (r2, f2) = (if truthy (m ''netflow24h'') \<and> the (m ''netflow24h'') > 100000
                      then (r1 + 1, f1 @ [''High netflow'']) else (r1, f1));
          (r3, f3) = (if truthy (m ''sellers'') \<and> truthy (m ''buyers'')
                         \<and> the (m ''sellers'') > the (m ''buyers'')
                      then (r2 - 1, f2 @ [''More sellers than buyers'']) else (r2, f2))
      in (r3, f3))"

definition recommend :: "int \<Rightarrow> Recommendation \<times> real" where
  "recommend r =
     (if r \<ge> 3 then (strong_buy, 0.8)
      else if r \<ge> 1 then (rec_buy, 0.6)
      else if r \<ge> 0 then (watch, 0.4)
      else (avoid, 0.3))"

definition suggest ::
  "'a OpportunitySignal_scheme \<Rightarrow> Recommendation \<Rightarrow> string list \<Rightarrow> SuggestedAction option" where
  "suggest s rec factors =
     (if rec = strong_buy \<or> rec = rec_buy then
        Some \<lparr>sa_action = trade_buy,
              urgency = (if rec = strong_buy then urgency_high else urgency_medium),
              reasoning = (if join ''; '' factors \<noteq> [] then join ''; '' factors
                           else ''Positive signal detected''),
              targetChain = sig_chain s,
              targetToken = token s,
              positionSizeHint = (if rec = strong_buy then size_medium else size_small)\<rparr>
      else None)"

definition score_one :: "int \<Rightarrow> 'a OpportunitySignal_scheme \<Rightarrow> TradingSignal" where
  "score_one now s =
     (let (r, factors) = risk_assessment s;
          (rec, conf) = recommend r
      in \<lparr>sig_type = sig_type s, token = token s, symbol = symbol s, sig_chain = sig_chain s,
          score = score s, reason = reason s, metrics = metrics s, timestamp = timestamp s,
          sig_id = generateId s, loggedAt = now, acted = False, outcome = None,
          riskScore = r, riskFactors = factors, recommendation = rec, confidence = conf,
          suggestedAction = suggest s rec factors, mcpAnalysis = None\<rparr>)"

text \<open>The comparator \<open>(a, b) => b.riskScore - a.riskScore || b.score - a.score\<close>.\<close>

definition compareSignals :: "TradingSignal \<Rightarrow> TradingSignal \<Rightarrow> real" where
  "compareSignals a b =
     (if real_of_int (riskScore b - riskScore a) \<noteq> 0 then real_of_int (riskScore b - riskScore a)
      else score b - score a)"

text \<open>\<open>Array.prototype.sort\<close> with a comparator is a stable sort; it is modelled by
  insertion from the right, which puts an element before the first one it does not
  compare greater than.\<close>

fun insert_by :: "('a \<Rightarrow> 'a \<Rightarrow> real) \<Rightarrow> 'a \<Rightarrow> 'a list \<Rightarrow> 'a list" where
  "insert_by cmp x [] = [x]"
| "insert_by cmp x (y # ys) = (if cmp x y \<le> 0 then x # y # ys else y # insert_by cmp x ys)"

definition sort_by :: "('a \<Rightarrow> 'a \<Rightarrow> real) \<Rightarrow> 'a list \<Rightarrow> 'a list" where
  "sort_by cmp xs = foldr (insert_by cmp) xs []"

definition scoreSignals :: "int \<Rightarrow> 'a OpportunitySignal_scheme list \<Rightarrow> TradingSignal list" where
  "scoreSignals now sigs = sort_by compareSignals (map (score_one now) sigs)"

text \<open>The order of the output as the specification words it: by risk score descending, ties
  broken by raw score descending.\<close>

definition ranked_before :: "TradingSignal \<Rightarrow> TradingSignal \<Rightarrow> bool" where
  "ranked_before a b =
     (riskScore a > riskScore b \<or> (riskScore a = riskScore b \<and> score a \<ge> score b))"

text \<open>\<open>xs.slice(0, n)\<close> for an integer \<open>n\<close>: a negative end counts from the end of the array.\<close>

definition slice0 :: "'a list \<Rightarrow> int \<Rightarrow> 'a list" where
  "slice0 xs n = (if n \<ge> 0 then take (nat n) xs else take (nat (int (length xs) + n)) xs)"

section \<open>Trader: scan\<close>

record ScanOptions =
  opt_chains :: "Chain list option"
  opt_modes :: "ScanMode list option"
  opt_limit :: "int option"
  opt_analyze :: "bool option"
  riskOverride :: "PartialRiskConfig option"

text \<open>The part of a \<open>NansenTrader\<close> that the pipeline reads and writes. The rate limiter,
  the cache and the network are reached only inside the fetch of one (chain, mode) pair,
  which is a parameter below: \<open>fetch chain mode limit\<close> is what the awaited
  \<open>getOrFetch\<close> call for that pair resolves to, or \<open>None\<close> when it rejects (the loop of
  \<open>scan\<close> has no handler, so the rejection ends the scan).\<close>

record Trader =
  riskConfig :: RiskConfig
  signalLog :: SignalLog

fun fetch_all ::
  "(Chain \<Rightarrow> ScanMode \<Rightarrow> int \<Rightarrow> OpportunitySignal list option) \<Rightarrow> int \<Rightarrow>
     (Chain \<times> ScanMode) list \<Rightarrow> OpportunitySignal list option" where
  "fetch_all fetch n [] = Some []"
| "fetch_all fetch n ((c, m) # ps) =
     (case fetch c m (n * 2) of
        None \<Rightarrow> None
      | Some sigs \<Rightarrow>
          (case fetch_all fetch n ps of
             None \<Rightarrow> None
           | Some more_sigs \<Rightarrow> Some (sigs @ more_sigs)))"

text \<open>\<open>enrichWithMcp\<close> writes the property \<open>mcpAnalysis\<close> of each signal it is given;
  \<open>analyze token chain\<close> is the analysis obtained, or the error caught.\<close>

definition enrichWithMcp ::
  "(string \<Rightarrow> Chain \<Rightarrow> McpAnalysis) \<Rightarrow> TradingSignal list \<Rightarrow> TradingSignal list" where
  "enrichWithMcp analyze sigs =
     map (\<lambda>s. s\<lparr>mcpAnalysis := Some (analyze (token s) (sig_chain s))\<rparr>) sigs"

text \<open>The loop \<open>for (const signal of topSignals) this.signalLog.log(signal)\<close>. The object
  logged is a \<open>TradingSignal\<close>, whose \<open>outcome\<close> the spread in \<open>log\<close> copies. The stored
  entry keeps the fields of \<open>LoggedSignal\<close>; the scoring fields that the spread would copy
  along are not part of the modelled store.\<close>

definition log_all :: "SignalLog \<Rightarrow> int \<Rightarrow> TradingSignal list \<Rightarrow> SignalLog" where
  "log_all l now sigs = foldl (\<lambda>l' s. snd (log_signal outcome l' now s)) l sigs"

definition scan ::
  "(Chain \<Rightarrow> ScanMode \<Rightarrow> int \<Rightarrow> OpportunitySignal list option) \<Rightarrow>
   (string \<Rightarrow> Chain \<Rightarrow> McpAnalysis) \<Rightarrow> Trader \<Rightarrow> int \<Rightarrow> ScanOptions \<Rightarrow>
     (TradingSignal list \<times> Trader) option" where
  "scan fetch analyze tr now opts =
     (let cs = override [ethereum, base, arbitrum] (opt_chains opts);
          modes = override [accumulation] (opt_modes opts);
          limit = override (maxSignalsPerScan (riskConfig tr)) (opt_limit opts);
          analyze_flag = override False (opt_analyze opts);
          effectiveRisk = merge_risk (riskConfig tr) (riskOverride opts);
          targetChains = filterChains cs effectiveRisk
      in case fetch_all fetch limit (List.product targetChains modes) of
           None \<Rightarrow> None
         | Some allSignals \<Rightarrow>
             (let filtered = applyRiskFilters allSignals effectiveRisk;
                  deduped = deduplicateSignals (signalLog tr) now filtered
                              (dedupeWindowMs effectiveRisk);
                  scored = scoreSignals now deduped;
                  topSignals = slice0 scored limit;
                  enriched = (if analyze_flag \<and> topSignals \<noteq> []
                              then enrichWithMcp analyze (slice0 topSignals 3) @ drop 3 topSignals
                              else topSignals)
              in Some (enriched, tr\<lparr>signalLog := log_all (signalLog tr) now enriched\<rparr>)))"

section \<open>cache.ts\<close>

text \<open>A cached value is any value of the host language, \<open>undefined\<close> included:
  \<open>None\<close> is \<open>undefined\<close>.\<close>

record 'a CacheEntry =
  data :: "'a option"
  expiry :: int
  hits :: nat

record 'a Cache =
  store :: "string \<rightharpoonup> 'a CacheEntry"
  stat_hits :: nat
  stat_misses :: nat
  creditsSaved :: real
  defaultTtl :: int

definition new_Cache :: "int \<Rightarrow> 'a Cache" where
  "new_Cache defaultTtlMs =
     \<lparr>store = Map.empty, stat_hits = 0, stat_misses = 0, creditsSaved = 0,
      defaultTtl = defaultTtlMs\<rparr>"

definition cache_get :: "'a Cache \<Rightarrow> int \<Rightarrow> string \<Rightarrow> 'a option \<times> 'a Cache" where
  "cache_get c now key =
     (case store c key of
        None \<Rightarrow> (None, c\<lparr>stat_misses := stat_misses c + 1\<rparr>)
      | Some entry \<Rightarrow>
          if now > expiry entry
          then (None, c\<lparr>store := (store c)(key := None), stat_misses := stat_misses c + 1\<rparr>)
          else (data entry,
                c\<lparr>store := (store c)(key \<mapsto> entry\<lparr>hits := hits entry + 1\<rparr>),
                  stat_hits := stat_hits c + 1\<rparr>))"

text \<open>\<open>ttlMs || this.defaultTtl\<close>: an absent and a zero \<open>ttlMs\<close> both select the default.\<close>

definition effective_ttl :: "'a Cache \<Rightarrow> int option \<Rightarrow> int" where
  "effective_ttl c ttlMs =
     (case ttlMs of None \<Rightarrow> defaultTtl c | Some t \<Rightarrow> if t \<noteq> 0 then t else defaultTtl c)"

definition cache_set ::
  "'a Cache \<Rightarrow> int \<Rightarrow> string \<Rightarrow> 'a option \<Rightarrow> int option \<Rightarrow> real \<Rightarrow> 'a Cache" where
  "cache_set c now key d ttlMs credits =
     c\<lparr>store := (store c)(key \<mapsto> \<lparr>data = d, expiry = now + effective_ttl c ttlMs, hits = 0\<rparr>)\<rparr>"

text \<open>A settled promise of the fetcher.\<close>

datatype 'a Settled = Resolved "'a option" | Rejected string

text \<open>A fetcher acts on the world outside the cache: called at a clock reading in a world,
  it settles at a later reading and leaves a new world. \<open>getOrFetch\<close> returns the settled
  value, the cache, the clock reading at its return and the world.\<close>

type_synonym ('a, 'w) fetcher = "int \<Rightarrow> 'w \<Rightarrow> 'a Settled \<times> int \<times> 'w"

text \<open>The continuation of \<open>getOrFetch\<close> after \<open>await fetcher()\<close>: a resolved value is
  stored at the clock reading at which the promise settled, a rejection stores nothing.\<close>

definition settle ::
  "'a Cache \<Rightarrow> string \<Rightarrow> 'a Settled \<Rightarrow> int \<Rightarrow> int option \<Rightarrow> real \<Rightarrow> 'a Cache" where
  "settle c key r t ttlMs credits =
     (case r of Rejected e \<Rightarrow> c | Resolved d \<Rightarrow> cache_set c t key d ttlMs credits)"

definition getOrFetch ::
  "'a Cache \<Rightarrow> string \<Rightarrow> ('a, 'w) fetcher \<Rightarrow> int option \<Rightarrow> real \<Rightarrow> int \<Rightarrow> 'w \<Rightarrow>
     'a Settled \<times> 'a Cache \<times> int \<times> 'w" where
  "getOrFetch c key fetcher ttlMs credits now w =
     (case cache_get c now key of
        (Some cached, c1) \<Rightarrow>
          (Resolved (Some cached), c1\<lparr>creditsSaved := creditsSaved c1 + credits\<rparr>, now, w)
      | (None, c1) \<Rightarrow>
          (case fetcher now w of
             (r, t, w') \<Rightarrow> (r, settle c1 key r t ttlMs credits, t, w')))"

text \<open>A fetcher together with a count of its invocations.\<close>

definition counted :: "('a, 'w) fetcher \<Rightarrow> ('a, 'w \<times> nat) fetcher" where
  "counted f now wn = (case f now (fst wn) of (r, t, w') \<Rightarrow> (r, t, (w', Suc (snd wn))))"

text \<open>A fetcher that takes a fixed time and returns a fixed settled promise.\<close>

definition const_fetcher :: "int \<Rightarrow> 'a Settled \<Rightarrow> ('a, unit) fetcher" where
  "const_fetcher duration r now w = (r, now + duration, w)"

text \<open>Two calls of \<open>getOrFetch\<close> with the same arguments, made at the clock readings \<open>t1\<close>
  and \<open>t2\<close>. When the first call has to fetch and the second call is made before that
  fetch has settled (\<open>t2\<close> before the settling reading \<open>ts1\<close>), the second call looks up the
  cache as the first lookup left it, with nothing stored yet, and the two continuations
  store in the order in which the fetches settle. Otherwise the second call is made after
  the first has returned (a call at the very reading \<open>ts1\<close> is taken to come after it) and
  runs on the cache that the first one left. The result is what the second call returns,
  with the cache and the world left when both calls have returned.\<close>

definition getOrFetch_twice ::
  "'a Cache \<Rightarrow> string \<Rightarrow> ('a, 'w) fetcher \<Rightarrow> int option \<Rightarrow> real \<Rightarrow> int \<Rightarrow> int \<Rightarrow> 'w \<Rightarrow>
     'a Settled \<times> 'a Cache \<times> int \<times> 'w" where
  "getOrFetch_twice c key fetcher ttlMs credits t1 t2 w =
     (case cache_get c t1 key of (cached1, c1) \<Rightarrow>
      case fetcher t1 w of (r1, ts1, w1) \<Rightarrow>
        if cached1 = None \<and> t2 < ts1 then
          (case cache_get c1 t2 key of
             (Some cached2, c2) \<Rightarrow>
               (Resolved (Some cached2),
                settle (c2\<lparr>creditsSaved := creditsSaved c2 + credits\<rparr>) key r1 ts1 ttlMs credits,
                t2, w1)
           | (None, c2) \<Rightarrow>
               (case fetcher t2 w1 of (r2, ts2, w2) \<Rightarrow>
                  (r2,
                   (if ts1 \<le> ts2
                    then settle (settle c2 key r1 ts1 ttlMs credits) key r2 ts2 ttlMs credits
                    else settle (settle c2 key r2 ts2 ttlMs credits) key r1 ts1 ttlMs credits),
                   ts2, w2)))
        else
          (case getOrFetch c key fetcher ttlMs credits t1 w of
             (r, c', ts, w') \<Rightarrow> getOrFetch c' key fetcher ttlMs credits t2 w'))"

text \<open>The number of invocations that a counted fetcher has made at the end of a call.\<close>

definition invocations :: "'a Settled \<times> 'a Cache \<times> int \<times> ('w \<times> nat) \<Rightarrow> nat" where
  "invocations res = snd (snd (snd (snd res)))"

section \<open>Rate limiter\<close>

record RateLimiterConfig =
  maxTokens :: real
  refillRate :: real
  minDelayMs :: real

record RateLimiter =
  tokens :: real
  lastRefill :: int
  lastRequest :: int
  config :: RateLimiterConfig
  totalRequests :: nat
  throttledRequests :: nat
  totalWaitTimeMs :: real

text \<open>The constructor, called at clock reading \<open>now\<close> with a partial configuration.\<close>

definition new_RateLimiter :: "real option \<Rightarrow> real option \<Rightarrow> real option \<Rightarrow> int \<Rightarrow> RateLimiter" where
  "new_RateLimiter mt rr md now =
     \<lparr>tokens = override 10 mt, lastRefill = now, lastRequest = 0,
      config = \<lparr>maxTokens = override 10 mt, refillRate = override 2 rr,
                 minDelayMs = override 100 md\<rparr>,
      totalRequests = 0, throttledRequests = 0, totalWaitTimeMs = 0\<rparr>"

definition refill :: "RateLimiter \<Rightarrow> int \<Rightarrow> RateLimiter" where
  "refill r now =
     (let elapsed = real_of_int (now - lastRefill r) / 1000;
          tokensToAdd = elapsed * refillRate (config r)
      in r\<lparr>tokens := min (maxTokens (config r)) (tokens r + tokensToAdd), lastRefill := now\<rparr>)"

text \<open>\<open>sleep(ms)\<close> suspends the caller; the clock reading at which it resumes is given by
  the environment: \<open>wake now ms\<close>. The \<open>while\<close> loop of \<open>acquire\<close> need not end (no
  tokens are ever added when the refill rate is zero, and the bucket never holds more than
  \<open>maxTokens\<close>), so a call is \<open>None\<close> when it does not return.\<close>

partial_function (option) acquire_loop ::
  "(int \<Rightarrow> real \<Rightarrow> int) \<Rightarrow> real \<Rightarrow> RateLimiter \<Rightarrow> int \<Rightarrow> real \<Rightarrow> (RateLimiter \<times> int \<times> real) option" where
  "acquire_loop wake cost r now waitTime =
     (if tokens r < cost then
        (let r1 = r\<lparr>throttledRequests := throttledRequests r + 1\<rparr>;
             tokensNeeded = cost - tokens r1;
             waitForTokens = (tokensNeeded / refillRate (config r1)) * 1000;
             delay = real_of_int \<lceil>waitForTokens\<rceil> + 10;
             now' = wake now delay
         in acquire_loop wake cost (refill r1 now') now' (waitTime + delay))
      else Some (r, now, waitTime))"

text \<open>The state of \<open>acquire\<close> when the loop is reached: the request is counted, the bucket
  refilled, and the minimum delay since the last request slept out.\<close>

definition acquire_start ::
  "(int \<Rightarrow> real \<Rightarrow> int) \<Rightarrow> RateLimiter \<Rightarrow> int \<Rightarrow> RateLimiter \<times> int \<times> real" where
  "acquire_start wake r now =
     (let r1 = refill (r\<lparr>totalRequests := totalRequests r + 1\<rparr>) now;
          timeSinceLastRequest = real_of_int (now - lastRequest r1)
      in if timeSinceLastRequest < minDelayMs (config r1)
         then (r1, wake now (minDelayMs (config r1) - timeSinceLastRequest),
               minDelayMs (config r1) - timeSinceLastRequest)
         else (r1, now, 0))"

text \<open>The state in which \<open>this.tokens -= cost\<close> is executed.\<close>

definition acquire_ready ::
  "(int \<Rightarrow> real \<Rightarrow> int) \<Rightarrow> RateLimiter \<Rightarrow> int \<Rightarrow> real \<Rightarrow> (RateLimiter \<times> int \<times> real) option" where
  "acquire_ready wake r now cost =
     (case acquire_start wake r now of (r1, now1, waitTime) \<Rightarrow>
        acquire_loop wake cost r1 now1 waitTime)"

text \<open>\<open>acquire\<close> returns the wait time; the model also returns the limiter and the clock
  reading at the return.\<close>

definition acquire ::
  "(int \<Rightarrow> real \<Rightarrow> int) \<Rightarrow> RateLimiter \<Rightarrow> int \<Rightarrow> real \<Rightarrow> (real \<times> RateLimiter \<times> int) option" where
  "acquire wake r now cost =
     (case acquire_ready wake r now cost of
        None \<Rightarrow> None
      | Some (r2, now2, waitTime) \<Rightarrow>
          Some (waitTime,
                r2\<lparr>tokens := tokens r2 - cost, lastRequest := now2,
                   totalWaitTimeMs := totalWaitTimeMs r2 + waitTime\<rparr>,
                now2))"

definition canAcquire :: "RateLimiter \<Rightarrow> int \<Rightarrow> real \<Rightarrow> bool \<times> RateLimiter" where
  "canAcquire r now cost = (tokens (refill r now) \<ge> cost, refill r now)"

record RateLimiterStats =
  s_totalRequests :: nat
  s_throttledRequests :: nat
  s_totalWaitTimeMs :: real
  currentTokens :: int

definition getStats :: "RateLimiter \<Rightarrow> int \<Rightarrow> RateLimiterStats \<times> RateLimiter" where
  "getStats r now =
     (let r1 = refill r now
      in (\<lparr>s_totalRequests = totalRequests r1, s_throttledRequests = throttledRequests r1,
           s_totalWaitTimeMs = totalWaitTimeMs r1, currentTokens = \<lfloor>tokens r1\<rfloor>\<rparr>, r1))"

definition reset :: "RateLimiter \<Rightarrow> int \<Rightarrow> RateLimiter" where
  "reset r now = r\<lparr>tokens := maxTokens (config r), lastRefill := now, lastRequest := 0\<rparr>"

text \<open>The public operations, and a run of calls, each made at its own clock reading.\<close>

datatype LimiterOp = Acquire real | CanAcquire real | GetStats | Reset

fun op_cost :: "LimiterOp \<Rightarrow> real" where
  "op_cost (Acquire c) = c"
| "op_cost (CanAcquire c) = 0"
| "op_cost GetStats = 0"
| "op_cost Reset = 0"

fun limiter_step :: "(int \<Rightarrow> real \<Rightarrow> int) \<Rightarrow> RateLimiter \<Rightarrow> int \<Rightarrow> LimiterOp \<Rightarrow> RateLimiter option" where
  "limiter_step wake r now (Acquire c) = map_option (\<lambda>x. fst (snd x)) (acquire wake r now c)"
| "limiter_step wake r now (CanAcquire c) = Some (snd (canAcquire r now c))"
| "limiter_step wake r now GetStats = Some (snd (getStats r now))"
| "limiter_step wake r now Reset = Some (reset r now)"

fun limiter_run ::
  "(int \<Rightarrow> real \<Rightarrow> int) \<Rightarrow> RateLimiter \<Rightarrow> (int \<times> LimiterOp) list \<Rightarrow> RateLimiter option" where
  "limiter_run wake r [] = Some r"
| "limiter_run wake r ((now, p) # ops) =
     (case limiter_step wake r now p of
        None \<Rightarrow> None
      | Some r' \<Rightarrow> limiter_run wake r' ops)"

text \<open>A clock that resumes a sleeper exactly when its delay is over.\<close>

definition punctual :: "int \<Rightarrow> real \<Rightarrow> int" where
  "punctual now ms = now + \<lceil>ms\<rceil>"

section \<open>Example inputs\<close>

definition scenario_metrics :: "string \<rightharpoonup> real" where
  "scenario_metrics = [''buyers'' \<mapsto> 10, ''sellers'' \<mapsto> 2, ''netflow24h'' \<mapsto> 150000]"

definition example_candidate :: OpportunitySignal where
  "example_candidate =
     \<lparr>sig_type = accumulation, token = ''0xabc'', symbol = ''X'', sig_chain = base, score = 6,
      reason = ''Smart money accumulating'', metrics = scenario_metrics,
      timestamp = ''2024-01-01T00:00:00.000Z''\<rparr>"

definition scenario_options :: ScanOptions where
  "scenario_options =
     \<lparr>opt_chains = Some [base], opt_modes = Some [accumulation], opt_limit = None,
      opt_analyze = None, riskOverride = None\<rparr>"

definition example_trader :: Trader where
  "example_trader = \<lparr>riskConfig = DEFAULT_RISK_CONFIG, signalLog = new_SignalLog True\<rparr>"

definition example_fetch :: "Chain \<Rightarrow> ScanMode \<Rightarrow> int \<Rightarrow> OpportunitySignal list option" where
  "example_fetch c m n = Some [example_candidate]"

definition example_analyze :: "string \<Rightarrow> Chain \<Rightarrow> McpAnalysis" where
  "example_analyze t c = Analysis ''ok''"

definition limit_trader :: Trader where
  "limit_trader = example_trader\<lparr>riskConfig := DEFAULT_RISK_CONFIG\<lparr>maxSignalsPerScan := 1\<rparr>\<rparr>"

definition limit_fetch :: "Chain \<Rightarrow> ScanMode \<Rightarrow> int \<Rightarrow> OpportunitySignal list option" where
  "limit_fetch c m n =
     Some [example_candidate\<lparr>score := 4\<rparr>, example_candidate\<lparr>token := ''0xdef''\<rparr>]"

definition logged_example :: SignalLog where
  "logged_example = snd (log_signal no_outcome (new_SignalLog True) 1000 example_candidate)"

definition example_id :: string where
  "example_id = ''base:0xabc:accumulation:2024-01-01T00:00:00.000Z''"


definition example_prices :: PartialOutcome where
  "example_prices =
     no_properties\<lparr>p_entryPrice := Present (Some 100), p_exitPrice := Present (Some 150)\<rparr>"

definition dedupe_batch :: "OpportunitySignal list" where
  "dedupe_batch =
     [example_candidate\<lparr>score := 3\<rparr>, example_candidate\<lparr>token := ''0xdef''\<rparr>,
      example_candidate\<lparr>score := 7, sig_type := breakout\<rparr>]"

definition example_limiter :: RateLimiter where
  "example_limiter = new_RateLimiter (Some 2) (Some 1) (Some 100) 0"

definition example_ops :: "(int \<times> LimiterOp) list" where
  "example_ops = [(1000, Acquire 1), (1200, Acquire 2), (2100, GetStats)]"

section \<open>Idempotent logging\<close>

lemma map_of_map_set: "map_of (map_set k v m) = (map_of m)(k \<mapsto> v)"
  by (induction m) (auto simp: fun_eq_iff)

lemma map_fst_map_set_present:
  "map_of m k \<noteq> None \<Longrightarrow> map fst (map_set k v m) = map fst m"
  by (induction m) auto

lemma map_fst_map_set_absent:
  "map_of m k = None \<Longrightarrow> map fst (map_set k v m) = map fst m @ [k]"
  by (induction m) auto

lemma distinct_map_set: "distinct (map fst m) \<Longrightarrow> distinct (map fst (map_set k v m))"
proof (cases "map_of m k")
  case None
  assume d: "distinct (map fst m)"
  from None have "k \<notin> set (map fst m)"
    by (simp add: map_of_eq_None_iff)
  with d None show ?thesis
    by (simp add: map_fst_map_set_absent)
next
  case (Some a)
  assume "distinct (map fst m)"
  with Some show ?thesis
    by (simp add: map_fst_map_set_present)
qed

lemma signals_auto_save [simp]: "signals (auto_save l) = signals l"
  by (simp add: auto_save_def save_def)

lemma count_key_distinct:
  "distinct (map fst m) \<Longrightarrow> map_of m k = Some v \<Longrightarrow> length (filter (\<lambda>e. fst e = k) m) = 1"
proof (induction m)
  case Nil
  then show ?case by simp
next
  case (Cons e m)
  show ?case
  proof (cases "fst e = k")
    case True
    with Cons.prems have "k \<notin> fst ` set m" by auto
    then have "filter (\<lambda>e. fst e = k) m = []"
      by (auto simp: filter_empty_conv)
    with True show ?thesis by simp
  next
    case False
    with Cons show ?thesis by (cases e) auto
  qed
qed

lemma log_inv_values:
  assumes "log_inv l"
  shows "records_with_id l i = length (filter (\<lambda>e. fst e = i) (signals l))"
proof -
  from assms have "list_all (\<lambda>e. sig_id (snd e) = fst e) (signals l)"
    by (simp add: log_inv_def)
  then have "length (filter (\<lambda>v. sig_id v = i) (map snd m)) = length (filter (\<lambda>e. fst e = i) m)"
    if "set m \<subseteq> set (signals l)" for m
    using that by (induction m) (auto simp: list_all_iff)
  then show ?thesis
    by (simp add: records_with_id_def map_values_def)
qed

lemma log_inv_map_set:
  assumes "log_inv l" and "sig_id v = k"
  shows "log_inv (auto_save (l\<lparr>signals := map_set k v (signals l)\<rparr>))"
proof -
  have "list_all (\<lambda>e. sig_id (snd e) = fst e) (map_set k v m)"
    if "list_all (\<lambda>e. sig_id (snd e) = fst e) m" for m
    using that assms(2) by (induction m) auto
  with assms show ?thesis
    by (simp add: log_inv_def distinct_map_set)
qed

lemma log_inv_new: "log_inv (new_SignalLog a)"
  by (simp add: log_inv_def new_SignalLog_def)

lemma log_inv_log_signal: "log_inv l \<Longrightarrow> log_inv (snd (log_signal own l now s))"
  by (auto simp: log_signal_def Let_def new_entry_def intro!: log_inv_map_set split: option.splits)

lemma log_inv_markActed: "log_inv l \<Longrightarrow> log_inv (snd (markActed l now i a n))"
proof (cases "map_get (signals l) i")
  case None
  then show "log_inv l \<Longrightarrow> ?thesis" by (simp add: markActed_def)
next
  case (Some s)
  assume inv: "log_inv l"
  from Some have "(i, s) \<in> set (signals l)"
    by (simp add: map_get_def map_of_SomeD)
  with inv have "sig_id s = i"
    by (auto simp: log_inv_def list_all_iff)
  with inv Some show ?thesis
    by (simp add: markActed_def Let_def log_inv_map_set)
qed

lemma log_inv_recordOutcome: "log_inv l \<Longrightarrow> log_inv (snd (recordOutcome l i out))"
proof (cases "map_get (signals l) i")
  case None
  then show "log_inv l \<Longrightarrow> ?thesis" by (simp add: recordOutcome_def)
next
  case (Some s)
  assume inv: "log_inv l"
  from Some have "(i, s) \<in> set (signals l)"
    by (simp add: map_get_def map_of_SomeD)
  with inv have "sig_id s = i"
    by (auto simp: log_inv_def list_all_iff)
  with inv Some show ?thesis
    by (simp add: recordOutcome_def Let_def log_inv_map_set)
qed

lemma log_signal_stored:
  "map_get (signals (snd (log_signal own l now s))) (generateId s)
   = Some (fst (log_signal own l now s))"
  by (simp add: log_signal_def Let_def map_get_def map_of_map_set split: option.splits)

lemma map_set_absent: "map_of m k = None \<Longrightarrow> map_set k v m = m @ [(k, v)]"
  by (induction m) (auto split: if_splits)

lemma log_signal_new:
  assumes "map_get (signals l) (generateId s) = None"
  shows "fst (log_signal own l now s) = new_entry own s now
         \<and> signals (snd (log_signal own l now s))
             = signals l @ [(generateId s, new_entry own s now)]"
  using assms by (simp add: log_signal_def Let_def map_get_def map_set_absent)

lemma log_signal_known:
  assumes "map_get (signals l) (generateId s) = Some e"
  shows "log_signal own l now s = (e, l)"
  using assms by (simp add: log_signal_def Let_def)

text \<open>
  C2. A candidate is logged, and then a candidate with the same chain, token, mode and
  timestamp is logged (at any later clock reading, whatever its other fields). The signal
  returned by the first call has the id computed from the candidate; when that id was not
  yet in the log it is the new entry made from the candidate, not acted on, appended to the
  log, and when the id was in the log it is the stored signal and the log is unchanged. The
  second call returns a signal with the same id: the very signal the first call returned,
  which is the one stored under the id; it leaves the whole log as it was; and the log then
  holds exactly one record with that id.
\<close>

theorem log_signal_idempotent:
  assumes inv: "log_inv l"
    and same: "sig_chain c2 = sig_chain c1" "token c2 = token c1"
              "sig_type c2 = sig_type c1" "timestamp c2 = timestamp c1"
    and first: "log_signal own1 l t1 c1 = (r1, l1)"
    and second: "log_signal own2 l1 t2 c2 = (r2, l2)"
  shows "sig_id r1 = generateId c1 \<and> sig_id r2 = generateId c2 \<and> sig_id r2 = sig_id r1
         \<and> r2 = r1 \<and> l2 = l1
         \<and> map_get (signals l1) (generateId c1) = Some r1
         \<and> records_with_id l2 (generateId c1) = 1
         \<and> (map_get (signals l) (generateId c1) = None \<longrightarrow>
              r1 = new_entry own1 c1 t1 \<and> \<not> acted r1 \<and> loggedAt r1 = t1
              \<and> signals l1 = signals l @ [(generateId c1, r1)])
         \<and> (\<forall>e. map_get (signals l) (generateId c1) = Some e \<longrightarrow> r1 = e \<and> l1 = l)"
proof -
  have key: "generateId c2 = generateId c1"
    using same by (simp add: generateId_def)
  have stored: "map_get (signals l1) (generateId c1) = Some r1"
    using log_signal_stored [of own1 l t1 c1] first by simp
  have inv1: "log_inv l1"
    using log_inv_log_signal [OF inv, of own1 t1 c1] first by simp
  have idr: "sig_id r1 = generateId c1"
  proof -
    from stored have "(generateId c1, r1) \<in> set (signals l1)"
      by (simp add: map_get_def map_of_SomeD)
    with inv1 show ?thesis
      by (auto simp: log_inv_def list_all_iff)
  qed
  have again: "r2 = r1 \<and> l2 = l1"
    using second stored key by (simp add: log_signal_def Let_def)
  have one: "records_with_id l1 (generateId c1) = 1"
    using inv1 stored
    by (simp add: log_inv_values log_inv_def map_get_def count_key_distinct)
  have new: "map_get (signals l) (generateId c1) = None \<longrightarrow>
              r1 = new_entry own1 c1 t1 \<and> \<not> acted r1 \<and> loggedAt r1 = t1
              \<and> signals l1 = signals l @ [(generateId c1, r1)]"
    using log_signal_new [of l c1 own1 t1] first by (auto simp: new_entry_def)
  have known: "\<forall>e. map_get (signals l) (generateId c1) = Some e \<longrightarrow> r1 = e \<and> l1 = l"
    using log_signal_known [of l c1 _ own1 t1] first by auto
  from idr again stored one new known key show ?thesis by auto
qed

theorem log_signal_idempotent_witness:
  "log_inv (new_SignalLog True) \<and>
   (let (r1, l1) = log_signal no_outcome (new_SignalLog True) 1000 example_candidate;
        (r2, l2) = log_signal no_outcome l1 2000 (example_candidate\<lparr>score := 9\<rparr>)
    in sig_id r1 = ''base:0xabc:accumulation:2024-01-01T00:00:00.000Z''
       \<and> sig_id r2 = sig_id r1 \<and> r2 = r1 \<and> score r2 = 6 \<and> l2 = l1
       \<and> r1 = new_entry no_outcome example_candidate 1000
       \<and> signals l1 = [(sig_id r1, r1)]
       \<and> records_with_id l2 (sig_id r1) = 1)"
proof -
  obtain r1 l1 where
    f: "log_signal no_outcome (new_SignalLog True) 1000 example_candidate = (r1, l1)"
    by (cases "log_signal no_outcome (new_SignalLog True) 1000 example_candidate") simp
  obtain r2 l2 where
    s: "log_signal no_outcome l1 2000 (example_candidate\<lparr>score := 9\<rparr>) = (r2, l2)"
    by (cases "log_signal no_outcome l1 2000 (example_candidate\<lparr>score := 9\<rparr>)") simp
  have g: "generateId example_candidate = ''base:0xabc:accumulation:2024-01-01T00:00:00.000Z''"
    by (simp add: generateId_def example_candidate_def)
  have e: "map_get (signals (new_SignalLog True)) (generateId example_candidate) = None"
    by (simp add: new_SignalLog_def map_get_def)
  have sc: "score (new_entry no_outcome example_candidate 1000) = 6"
    by (simp add: new_entry_def example_candidate_def)
  have em: "signals (new_SignalLog True) = []"
    by (simp add: new_SignalLog_def)
  from log_signal_idempotent [OF log_inv_new _ _ _ _ f s] g e sc em
  have "sig_id r1 = ''base:0xabc:accumulation:2024-01-01T00:00:00.000Z''
        \<and> sig_id r2 = sig_id r1 \<and> r2 = r1 \<and> score r2 = 6 \<and> l2 = l1
        \<and> r1 = new_entry no_outcome example_candidate 1000
        \<and> signals l1 = [(sig_id r1, r1)]
        \<and> records_with_id l2 (sig_id r1) = 1"
    by auto
  with f s show ?thesis
    by (auto simp: log_inv_new)
qed

section \<open>Scoring\<close>

lemma set_insert_by: "set (insert_by cmp x xs) = insert x (set xs)"
  by (induction xs) auto

lemma set_sort_by: "set (sort_by cmp xs) = set xs"
  by (induction xs) (auto simp: sort_by_def set_insert_by)

lemma length_insert_by: "length (insert_by cmp x xs) = Suc (length xs)"
  by (induction xs) auto

lemma length_sort_by: "length (sort_by cmp xs) = length xs"
  by (induction xs) (auto simp: sort_by_def length_insert_by)

lemma score_one_recommendation:
  "(recommendation (score_one now s), confidence (score_one now s)) =
     (if riskScore (score_one now s) \<ge> 3 then (strong_buy, 0.8)
      else if riskScore (score_one now s) \<ge> 1 then (rec_buy, 0.6)
      else if riskScore (score_one now s) \<ge> 0 then (watch, 0.4)
      else (avoid, 0.3))"
  by (simp add: score_one_def recommend_def split: prod.splits)

lemma scenario_assessment:
  assumes "score cand = 6" "metrics cand = scenario_metrics"
  shows "risk_assessment cand = (4, [''Strong buyer/seller ratio'', ''High netflow''])"
  using assms by (simp add: risk_assessment_def scenario_metrics_def truthy_def)

lemma scenario_passes:
  assumes "score cand = 6" "metrics cand = scenario_metrics"
  shows "passesRiskFilters DEFAULT_RISK_CONFIG cand"
  using assms
  by (simp add: passesRiskFilters_def DEFAULT_RISK_CONFIG_def scenario_metrics_def truthy_def)

text \<open>
  C7. A trader with the default risk configuration and no recent signal for the candidate
  scans one chain and one mode, and the fetch returns the single candidate with score 6 and
  metrics buyers 10, sellers 2, netflow24h 150000. The scan returns exactly one trading
  signal, for that token, with risk score 2 + 1 + 1 = 4, recommendation strong_buy,
  confidence 0.8, and both "Strong buyer/seller ratio" and "High netflow" among its risk
  factors. In every output of the scoring stage, a risk score of at least 3 goes with
  strong_buy and 0.8, of at least 1 with buy and 0.6, of at least 0 with watch and 0.4, and a
  negative one with avoid and 0.3.
\<close>

theorem scan_scenario:
  assumes cfg: "riskConfig tr = DEFAULT_RISK_CONFIG"
    and fetch: "fetch base accumulation 20 = Some [cand]"
    and cand: "score cand = 6" "metrics cand = scenario_metrics"
    and fresh: "\<not> hasRecentSignal (signalLog tr) now cand (dedupeWindowMs DEFAULT_RISK_CONFIG)"
  shows "(\<exists>ts tr'. scan fetch analyze tr now scenario_options = Some ([ts], tr')
            \<and> sig_chain ts = sig_chain cand \<and> token ts = token cand \<and> score ts = 6
            \<and> riskScore ts = 2 + 1 + 1 \<and> recommendation ts = strong_buy \<and> confidence ts = 0.8
            \<and> ''Strong buyer/seller ratio'' \<in> set (riskFactors ts)
            \<and> ''High netflow'' \<in> set (riskFactors ts))
         \<and> (\<forall>t \<in> set (scoreSignals now' sigs).
               (recommendation t, confidence t) =
                 (if riskScore t \<ge> 3 then (strong_buy, 0.8)
                  else if riskScore t \<ge> 1 then (rec_buy, 0.6)
                  else if riskScore t \<ge> 0 then (watch, 0.4)
                  else (avoid, 0.3)))"
proof
  have lim: "maxSignalsPerScan DEFAULT_RISK_CONFIG = 10"
    by (simp add: DEFAULT_RISK_CONFIG_def)
  have dd: "deduplicateSignals (signalLog tr) now [cand] (dedupeWindowMs DEFAULT_RISK_CONFIG) = [cand]"
    using fresh by (simp add: deduplicateSignals_def map_get_def map_values_def)
  have sc: "scoreSignals now [cand] = [score_one now cand]"
    by (simp add: scoreSignals_def sort_by_def)
  have "scan fetch analyze tr now scenario_options =
          Some ([score_one now cand],
                tr\<lparr>signalLog := log_all (signalLog tr) now [score_one now cand]\<rparr>)"
    using fetch scenario_passes [OF cand]
    by (simp add: scan_def Let_def scenario_options_def override_def cfg lim merge_risk_def
        filterChains_def DEFAULT_RISK_CONFIG_def applyRiskFilters_def
        dd [unfolded DEFAULT_RISK_CONFIG_def, simplified] sc slice0_def)
  moreover have "riskScore (score_one now cand) = 4
      \<and> recommendation (score_one now cand) = strong_buy
      \<and> confidence (score_one now cand) = 0.8
      \<and> riskFactors (score_one now cand) = [''Strong buyer/seller ratio'', ''High netflow'']"
    by (simp add: score_one_def scenario_assessment [OF cand] recommend_def)
  moreover have "sig_chain (score_one now cand) = sig_chain cand
      \<and> token (score_one now cand) = token cand \<and> score (score_one now cand) = 6"
    using cand by (simp add: score_one_def split: prod.splits)
  ultimately show "\<exists>ts tr'. scan fetch analyze tr now scenario_options = Some ([ts], tr')
            \<and> sig_chain ts = sig_chain cand \<and> token ts = token cand \<and> score ts = 6
            \<and> riskScore ts = 2 + 1 + 1 \<and> recommendation ts = strong_buy \<and> confidence ts = 0.8
            \<and> ''Strong buyer/seller ratio'' \<in> set (riskFactors ts)
            \<and> ''High netflow'' \<in> set (riskFactors ts)"
    by simp
next
  show "\<forall>t \<in> set (scoreSignals now' sigs).
               (recommendation t, confidence t) =
                 (if riskScore t \<ge> 3 then (strong_buy, 0.8)
                  else if riskScore t \<ge> 1 then (rec_buy, 0.6)
                  else if riskScore t \<ge> 0 then (watch, 0.4)
                  else (avoid, 0.3))"
    using score_one_recommendation
    by (auto simp only: scoreSignals_def set_sort_by set_map)
qed

theorem scan_scenario_witness:
  "map token (fst (the (scan example_fetch example_analyze example_trader 1000 scenario_options)))
     = [''0xabc'']
   \<and> map riskScore (fst (the (scan example_fetch example_analyze example_trader 1000
                                  scenario_options))) = [4]
   \<and> map recommendation (fst (the (scan example_fetch example_analyze example_trader 1000
                                       scenario_options))) = [strong_buy]
   \<and> map confidence (fst (the (scan example_fetch example_analyze example_trader 1000
                                    scenario_options))) = [0.8]
   \<and> map (\<lambda>t. (riskScore t, recommendation t, confidence t))
          (scoreSignals 1000 [example_candidate\<lparr>score := 4, metrics := Map.empty\<rparr>])
        = [(1, rec_buy, 0.6)]"
proof -
  have h1: "riskConfig example_trader = DEFAULT_RISK_CONFIG"
    by (simp add: example_trader_def)
  have h2: "example_fetch base accumulation 20 = Some [example_candidate]"
    by (simp add: example_fetch_def)
  have h3: "score example_candidate = 6" and h4: "metrics example_candidate = scenario_metrics"
    by (simp_all add: example_candidate_def)
  have h5: "\<not> hasRecentSignal (signalLog example_trader) 1000 example_candidate
              (dedupeWindowMs DEFAULT_RISK_CONFIG)"
    by (simp add: hasRecentSignal_def example_trader_def new_SignalLog_def map_values_def)
  have tok: "token example_candidate = ''0xabc''"
    by (simp add: example_candidate_def)
  have s1: "scoreSignals 1000 [example_candidate\<lparr>score := 4, metrics := Map.empty\<rparr>]
             = [score_one 1000 (example_candidate\<lparr>score := 4, metrics := Map.empty\<rparr>)]"
    by (simp add: scoreSignals_def sort_by_def)
  have r1: "riskScore (score_one 1000 (example_candidate\<lparr>score := 4, metrics := Map.empty\<rparr>)) = 1"
    by (simp add: score_one_def risk_assessment_def truthy_def recommend_def)
  from scan_scenario [where tr = example_trader and fetch = example_fetch
      and cand = example_candidate and now = 1000 and analyze = example_analyze
      and now' = 1000 and sigs = "[example_candidate\<lparr>score := 4, metrics := Map.empty\<rparr>]",
      OF h1 h2 h3 h4 h5]
  show ?thesis
    using tok s1 r1 by auto
qed

section \<open>Threshold filter\<close>

lemma passes_without_metrics:
  "metrics s = Map.empty \<Longrightarrow> minScore risk = Some least \<Longrightarrow>
     passesRiskFilters risk s = (\<not> score s < least)"
  by (simp add: passesRiskFilters_def truthy_def)

lemma minScore_boundary:
  "passesRiskFilters DEFAULT_RISK_CONFIG (example_candidate\<lparr>score := 2.0\<rparr>)
   \<and> \<not> passesRiskFilters DEFAULT_RISK_CONFIG (example_candidate\<lparr>score := 1.9\<rparr>)"
  by (simp add: passesRiskFilters_def DEFAULT_RISK_CONFIG_def example_candidate_def
      scenario_metrics_def truthy_def)

text \<open>Where no threshold and no metric is zero, the filter is the one specified.\<close>

lemma passesRiskFilters_spec:
  assumes "minSmartMoneyBuyers risk \<noteq> Some 0" "minNetflowUsd risk \<noteq> Some 0"
    "minFreshWallets risk \<noteq> Some 0"
    and "metrics s ''buyers'' \<noteq> Some 0" "metrics s ''netflow24h'' \<noteq> Some 0"
    "metrics s ''freshWallets'' \<noteq> Some 0"
  shows "passesRiskFilters risk s \<longleftrightarrow> \<not> spec_drops risk s"
  using assms
  by (auto simp: passesRiskFilters_def spec_drops_def below_threshold_def truthy_def Let_def
      split: option.splits)

text \<open>
  C3. The claim requires a candidate whose metric is present and below the configured
  threshold to be dropped (\<open>spec_drops\<close>). A candidate that reports zero smart-money
  buyers, under the default configuration (which asks for at least 3), is kept by the
  filter, while one that reports a single buyer is dropped: the test
  \<open>m.buyers && m.buyers < risk.minSmartMoneyBuyers\<close> takes the value 0 for an absent
  metric. The same holds for a netflow of 0 and for zero fresh wallets.
\<close>

theorem applyRiskFilters_keeps_zero_metrics:
  "spec_drops DEFAULT_RISK_CONFIG (example_candidate\<lparr>metrics := [''buyers'' \<mapsto> 0]\<rparr>)
   \<and> spec_drops DEFAULT_RISK_CONFIG (example_candidate\<lparr>metrics := [''netflow24h'' \<mapsto> 0]\<rparr>)
   \<and> spec_drops DEFAULT_RISK_CONFIG (example_candidate\<lparr>metrics := [''freshWallets'' \<mapsto> 0]\<rparr>)
   \<and> applyRiskFilters
     [example_candidate\<lparr>metrics := [''buyers'' \<mapsto> 0]\<rparr>,
      example_candidate\<lparr>metrics := [''netflow24h'' \<mapsto> 0]\<rparr>,
      example_candidate\<lparr>metrics := [''freshWallets'' \<mapsto> 0]\<rparr>,
      example_candidate\<lparr>metrics := [''buyers'' \<mapsto> 1]\<rparr>]
     DEFAULT_RISK_CONFIG
   = [example_candidate\<lparr>metrics := [''buyers'' \<mapsto> 0]\<rparr>,
      example_candidate\<lparr>metrics := [''netflow24h'' \<mapsto> 0]\<rparr>,
      example_candidate\<lparr>metrics := [''freshWallets'' \<mapsto> 0]\<rparr>]"
  by (simp add: applyRiskFilters_def passesRiskFilters_def DEFAULT_RISK_CONFIG_def
      example_candidate_def truthy_def spec_drops_def below_threshold_def)

section \<open>Outcome derivation\<close>

lemma recordOutcome_unknown_id:
  "map_get (signals l) i = None \<Longrightarrow> recordOutcome l i out = (None, l)"
  by (simp add: recordOutcome_def)

lemma derive_pnl_nonzero:
  assumes "entryPrice out = Some e" "exitPrice out = Some x" "e \<noteq> 0" "x \<noteq> 0"
  shows "pnl (derive_pnl out) = Some (x - e)
         \<and> pnlPercent (derive_pnl out) = Some ((x - e) / e * 100)"
  using assms by (simp add: derive_pnl_def truthy_def Let_def)

lemma recordOutcome_recomputes:
  assumes stored: "map_get (signals l) i = Some s"
    and entry: "entryPrice (merge_outcome (outcome s) out) = Some e"
    and exit: "exitPrice (merge_outcome (outcome s) out) = Some x"
    and nz: "e \<noteq> 0" "x \<noteq> 0"
  shows "fst (recordOutcome l i out) =
           Some (s\<lparr>outcome := Some ((merge_outcome (outcome s) out)
                     \<lparr>pnl := Some (x - e), pnlPercent := Some ((x - e) / e * 100)\<rparr>)\<rparr>)
         \<and> map_get (signals (snd (recordOutcome l i out))) i = fst (recordOutcome l i out)"
  using assms
  by (simp add: recordOutcome_def Let_def derive_pnl_def truthy_def map_get_def map_of_map_set)

lemma recordOutcome_example:
  "map_option pnl (stored_outcome (snd (recordOutcome logged_example example_id example_prices))
                     example_id) = Some (Some 50)
   \<and> map_option pnlPercent
         (stored_outcome (snd (recordOutcome logged_example example_id example_prices))
            example_id) = Some (Some 50)"
  by (simp add: stored_outcome_def logged_example_def example_id_def example_prices_def
      recordOutcome_def log_signal_def new_SignalLog_def map_get_def new_entry_def
      generateId_def example_candidate_def Let_def merge_outcome_def empty_outcome_def
      no_properties_def no_outcome_def spread_def derive_pnl_def truthy_def)

text \<open>
  C1. The claim requires the profit to be recomputed whenever the merged outcome has both
  prices. With an entry price of 100 and an exit price of 0 (both present) and a
  caller-supplied pnl of 7, \<open>recordOutcome\<close> leaves pnl at 7 and pnlPercent unset, where the
  claim gives pnl = -100 and pnlPercent = -100: the guard \<open>if (entryPrice && exitPrice)\<close>
  takes a price of 0 for a missing one.
\<close>

theorem recordOutcome_zero_exit_price:
  "map_option entryPrice (stored_outcome (snd (recordOutcome logged_example example_id
       (no_properties\<lparr>p_entryPrice := Present (Some 100), p_exitPrice := Present (Some 0),
                       p_pnl := Present (Some 7)\<rparr>)))
       example_id) = Some (Some 100)
   \<and> map_option exitPrice (stored_outcome (snd (recordOutcome logged_example example_id
       (no_properties\<lparr>p_entryPrice := Present (Some 100), p_exitPrice := Present (Some 0),
                       p_pnl := Present (Some 7)\<rparr>)))
       example_id) = Some (Some 0)
   \<and> map_option pnl (stored_outcome (snd (recordOutcome logged_example example_id
       (no_properties\<lparr>p_entryPrice := Present (Some 100), p_exitPrice := Present (Some 0),
                       p_pnl := Present (Some 7)\<rparr>)))
       example_id) = Some (Some 7)
   \<and> map_option pnlPercent (stored_outcome (snd (recordOutcome logged_example example_id
       (no_properties\<lparr>p_entryPrice := Present (Some 100), p_exitPrice := Present (Some 0),
                       p_pnl := Present (Some 7)\<rparr>)))
       example_id) = Some None"
  by (simp add: stored_outcome_def logged_example_def example_id_def
      recordOutcome_def log_signal_def new_SignalLog_def map_get_def new_entry_def
      generateId_def example_candidate_def Let_def merge_outcome_def empty_outcome_def
      no_properties_def no_outcome_def spread_def derive_pnl_def truthy_def)

section \<open>Deduplication\<close>

lemma keyed_map_set: "keyed m \<Longrightarrow> keyed (map_set (dedupe_key s) s m)"
proof -
  have "list_all (\<lambda>e. dedupe_key (snd e) = fst e) (map_set (dedupe_key s) s m)"
    if "list_all (\<lambda>e. dedupe_key (snd e) = fst e) m" for m
    using that by (induction m) auto
  then show "keyed m \<Longrightarrow> keyed (map_set (dedupe_key s) s m)"
    by (simp add: keyed_def distinct_map_set)
qed

lemma keyed_dedupe_loop: "keyed seen \<Longrightarrow> keyed (dedupe_loop recent seen ss)"
  by (induction ss arbitrary: seen) (auto simp: keyed_map_set split: option.splits)

lemma keyed_values: "keyed m \<Longrightarrow> distinct (map dedupe_key (map_values m))"
proof -
  assume k: "keyed m"
  then have "map dedupe_key (map snd m') = map fst m'" if "set m' \<subseteq> set m" for m'
    using that by (induction m') (auto simp: keyed_def list_all_iff)
  then have "map dedupe_key (map_values m) = map fst m"
    unfolding map_values_def by blast
  with k show ?thesis by (simp only: keyed_def)
qed

lemma dedupe_key_same:
  "sig_chain a = sig_chain b \<Longrightarrow> token a = token b \<Longrightarrow> dedupe_key a = dedupe_key b"
  by (simp add: dedupe_key_def)

lemma distinct_deduplicateSignals:
  "distinct (map (\<lambda>s. (sig_chain s, token s)) (deduplicateSignals l now sigs w))"
proof -
  have "keyed (dedupe_loop (\<lambda>s. hasRecentSignal l now s w) [] sigs)"
    by (rule keyed_dedupe_loop) (simp add: keyed_def)
  then have d: "distinct (map dedupe_key (deduplicateSignals l now sigs w))"
    by (simp add: deduplicateSignals_def keyed_values)
  have "distinct (map dedupe_key xs) \<Longrightarrow> distinct (map (\<lambda>s. (sig_chain s, token s)) xs)"
    for xs :: "'a OpportunitySignal_scheme list"
  proof (induction xs)
    case Nil
    then show ?case by simp
  next
    case (Cons x xs)
    then show ?case
      by (auto simp: image_iff dest: dedupe_key_same)
  qed
  with d show ?thesis by blast
qed

lemma chain_str_key_inject:
  "chain_str c @ '':'' @ t = chain_str c' @ '':'' @ t' \<Longrightarrow> c = c' \<and> t = t'"
  by (cases c; cases c'; simp)

lemma dedupe_key_inject:
  "dedupe_key a = dedupe_key b \<longleftrightarrow> sig_chain a = sig_chain b \<and> token a = token b"
  using chain_str_key_inject [of "sig_chain a" "token a" "sig_chain b" "token b"]
  by (auto simp: dedupe_key_def)

lemma dedupe_loop_lookup:
  "map_of (dedupe_loop recent seen xs) k = best_for recent k (map_of seen k) xs"
proof (induction xs arbitrary: seen)
  case Nil
  then show ?case by simp
next
  case (Cons s ss)
  show ?case
  proof (cases "recent s")
    case True
    then show ?thesis by (simp add: Cons.IH)
  next
    case False
    then show ?thesis
      by (cases "map_of seen (dedupe_key s)")
        (auto simp: Cons.IH map_get_def map_of_map_set)
  qed
qed

lemma best_for_stays:
  assumes "\<forall>c \<in> set xs. dedupe_key c = k \<longrightarrow> c = a \<or> c = b" and "score b < score a"
  shows "best_for recent k (Some a) xs = Some a"
  using assms by (induction xs) auto

lemma best_for_reaches:
  assumes "\<forall>c \<in> set xs. dedupe_key c = k \<longrightarrow> c = a \<or> c = b" and "score b < score a"
    and "dedupe_key a = k" and "\<not> recent a" and "a \<in> set xs"
    and "cur = None \<or> cur = Some b"
  shows "best_for recent k cur xs = Some a"
  using assms
proof (induction xs arbitrary: cur)
  case Nil
  then show ?case by simp
next
  case (Cons s ss)
  have rest: "\<forall>c \<in> set ss. dedupe_key c = k \<longrightarrow> c = a \<or> c = b"
    using Cons.prems(1) by simp
  show ?case
  proof (cases "s = a")
    case True
    with Cons.prems have "best_for recent k cur (s # ss) = best_for recent k (Some a) ss"
      by auto
    with best_for_stays [OF rest Cons.prems(2)] show ?thesis by simp
  next
    case False
    with Cons.prems have a: "a \<in> set ss" by simp
    from False Cons.prems(1) have sb: "dedupe_key s = k \<longrightarrow> s = b" by simp
    define cur' where "cur' = (if dedupe_key s = k \<and> \<not> recent s
           \<and> (case cur of None \<Rightarrow> True | Some existing \<Rightarrow> score s > score existing)
        then Some s else cur)"
    have "cur' = None \<or> cur' = Some b"
      using sb Cons.prems(6) by (auto simp: cur'_def)
    from Cons.IH [OF rest Cons.prems(2,3,4) a this]
    show ?thesis by (simp add: cur'_def)
  qed
qed

lemma keyed_filter_values:
  "keyed m \<Longrightarrow> map_of m k = Some v \<Longrightarrow> filter (\<lambda>c. dedupe_key c = k) (map_values m) = [v]"
proof (induction m)
  case Nil
  then show ?case by simp
next
  case (Cons e m)
  from Cons.prems(1) have km: "keyed m" and ke: "dedupe_key (snd e) = fst e"
    and fresh: "fst e \<notin> fst ` set m"
    by (auto simp: keyed_def)
  show ?case
  proof (cases "fst e = k")
    case True
    from km have "\<forall>x \<in> set m. dedupe_key (snd x) = fst x"
      by (simp add: keyed_def list_all_iff)
    with fresh True have "\<forall>x \<in> set m. dedupe_key (snd x) \<noteq> k"
      by (metis image_eqI)
    then have "filter (\<lambda>c. dedupe_key c = k) (map snd m) = []"
      by (auto simp: filter_empty_conv)
    with True ke Cons.prems(2) show ?thesis
      by (cases e) (simp add: map_values_def)
  next
    case False
    with Cons.prems(2) have "map_of m k = Some v" by (cases e) auto
    from Cons.IH [OF km this] False ke show ?thesis
      by (simp add: map_values_def)
  qed
qed

text \<open>
  C5. A batch given to \<open>deduplicateSignals\<close> contains two candidates with the same chain
  and token (and any modes, equal or not) and different scores, neither of them matched by a
  recent logged signal, and no further candidate for that chain and token. Of the
  candidates for that chain and token exactly one comes back: the one with the higher score;
  the other does not come back. In particular the batch of just the two, in either order,
  gives back the higher-scoring one alone.
\<close>

theorem dedupe_keeps_higher_score:
  fixes a b :: "'a OpportunitySignal_scheme"
  assumes same: "sig_chain a = sig_chain b" "token a = token b"
    and higher: "score b < score a"
    and fresh: "\<not> hasRecentSignal l now a w" "\<not> hasRecentSignal l now b w"
    and batch: "a \<in> set batch" "b \<in> set batch"
    and others: "\<forall>c \<in> set batch. sig_chain c = sig_chain a \<and> token c = token a \<longrightarrow> c = a \<or> c = b"
  shows "filter (\<lambda>c. sig_chain c = sig_chain a \<and> token c = token a)
           (deduplicateSignals l now batch w) = [a]
         \<and> b \<notin> set (deduplicateSignals l now batch w)
         \<and> deduplicateSignals l now [a, b] w = [a]
         \<and> deduplicateSignals l now [b, a] w = [a]"
proof -
  define recent where "recent = (\<lambda>s :: 'a OpportunitySignal_scheme. hasRecentSignal l now s w)"
  define final where "final = dedupe_loop recent [] batch"
  have o: "\<forall>c \<in> set batch. dedupe_key c = dedupe_key a \<longrightarrow> c = a \<or> c = b"
    using others by (simp add: dedupe_key_inject)
  have "map_of final (dedupe_key a) = best_for recent (dedupe_key a) None batch"
    by (simp add: final_def dedupe_loop_lookup)
  also have "\<dots> = Some a"
    using o higher _ _ batch(1) by (rule best_for_reaches) (simp_all add: recent_def fresh)
  finally have look: "map_of final (dedupe_key a) = Some a" .
  have k: "keyed final"
    unfolding final_def by (rule keyed_dedupe_loop) (simp add: keyed_def)
  have f: "filter (\<lambda>c. dedupe_key c = dedupe_key a) (map_values final) = [a]"
    using k look by (rule keyed_filter_values)
  have res: "deduplicateSignals l now batch w = map_values final"
    by (simp add: deduplicateSignals_def final_def recent_def)
  have one: "filter (\<lambda>c. sig_chain c = sig_chain a \<and> token c = token a)
           (deduplicateSignals l now batch w) = [a]"
    using f by (simp add: res dedupe_key_inject)
  have "b \<noteq> a" using higher by auto
  moreover have "b \<in> set (filter (\<lambda>c. sig_chain c = sig_chain a \<and> token c = token a)
           (deduplicateSignals l now batch w))" if "b \<in> set (deduplicateSignals l now batch w)"
    using that same by simp
  ultimately have nb: "b \<notin> set (deduplicateSignals l now batch w)"
    using one by auto
  have two: "deduplicateSignals l now [a, b] w = [a]" "deduplicateSignals l now [b, a] w = [a]"
    using same higher fresh
    by (simp_all add: deduplicateSignals_def map_get_def map_values_def dedupe_key_def)
  from one nb two show ?thesis by simp
qed

theorem dedupe_keeps_higher_score_witness:
  "filter (\<lambda>c. sig_chain c = base \<and> token c = ''0xabc'')
     (deduplicateSignals (new_SignalLog True) 1000 dedupe_batch 3600000)
     = [example_candidate\<lparr>score := 7, sig_type := breakout\<rparr>]
   \<and> deduplicateSignals (new_SignalLog True) 1000 dedupe_batch 3600000
     = [example_candidate\<lparr>score := 7, sig_type := breakout\<rparr>,
        example_candidate\<lparr>token := ''0xdef''\<rparr>]
   \<and> deduplicateSignals (new_SignalLog True) 1000
       [example_candidate\<lparr>score := 3\<rparr>, example_candidate\<lparr>score := 7, sig_type := breakout\<rparr>]
       3600000
     = [example_candidate\<lparr>score := 7, sig_type := breakout\<rparr>]"
proof -
  have fresh: "\<not> hasRecentSignal (new_SignalLog True) 1000 c 3600000" for c :: OpportunitySignal
    by (simp add: hasRecentSignal_def new_SignalLog_def map_values_def)
  have whole: "deduplicateSignals (new_SignalLog True) 1000 dedupe_batch 3600000
     = [example_candidate\<lparr>score := 7, sig_type := breakout\<rparr>,
        example_candidate\<lparr>token := ''0xdef''\<rparr>]"
    by (simp add: deduplicateSignals_def dedupe_batch_def fresh map_get_def map_values_def
        dedupe_key_def example_candidate_def)
  have others: "\<forall>c \<in> set dedupe_batch.
      sig_chain c = sig_chain (example_candidate\<lparr>score := 7, sig_type := breakout\<rparr>)
      \<and> token c = token (example_candidate\<lparr>score := 7, sig_type := breakout\<rparr>)
      \<longrightarrow> c = example_candidate\<lparr>score := 7, sig_type := breakout\<rparr>
          \<or> c = example_candidate\<lparr>score := 3\<rparr>"
    by (simp add: dedupe_batch_def example_candidate_def)
  from dedupe_keeps_higher_score [where a = "example_candidate\<lparr>score := 7, sig_type := breakout\<rparr>"
      and b = "example_candidate\<lparr>score := 3\<rparr>" and l = "new_SignalLog True" and now = 1000
      and w = 3600000 and batch = dedupe_batch, OF _ _ _ fresh fresh _ _ others]
  have "filter (\<lambda>c. sig_chain c = base \<and> token c = ''0xabc'')
     (deduplicateSignals (new_SignalLog True) 1000 dedupe_batch 3600000)
     = [example_candidate\<lparr>score := 7, sig_type := breakout\<rparr>]
     \<and> deduplicateSignals (new_SignalLog True) 1000
       [example_candidate\<lparr>score := 3\<rparr>, example_candidate\<lparr>score := 7, sig_type := breakout\<rparr>]
       3600000
     = [example_candidate\<lparr>score := 7, sig_type := breakout\<rparr>]"
    by (simp add: dedupe_batch_def example_candidate_def)
  with whole show ?thesis by simp
qed

section \<open>Ranking and truncation\<close>

lemma compareSignals_le: "compareSignals a b \<le> 0 \<longleftrightarrow> ranked_before a b"
  by (auto simp: compareSignals_def ranked_before_def)

lemma ranked_before_total: "\<not> ranked_before a b \<Longrightarrow> ranked_before b a"
  by (auto simp: ranked_before_def)

lemma ranked_before_trans: "ranked_before a b \<Longrightarrow> ranked_before b c \<Longrightarrow> ranked_before a c"
  by (auto simp: ranked_before_def)

lemma sorted_insert_by:
  "sorted_wrt ranked_before xs \<Longrightarrow> sorted_wrt ranked_before (insert_by compareSignals x xs)"
proof (induction xs)
  case Nil
  then show ?case by simp
next
  case (Cons y ys)
  show ?case
  proof (cases "compareSignals x y \<le> 0")
    case True
    then have "ranked_before x y" by (simp add: compareSignals_le)
    with Cons.prems have "\<forall>z \<in> set (y # ys). ranked_before x z"
      by (auto intro: ranked_before_trans)
    with Cons.prems True show ?thesis by simp
  next
    case False
    then have "ranked_before y x"
      by (simp add: compareSignals_le ranked_before_total)
    with Cons False show ?thesis
      by (auto simp: set_insert_by)
  qed
qed

lemma sorted_sort_by: "sorted_wrt ranked_before (sort_by compareSignals xs)"
  by (induction xs) (simp_all add: sort_by_def sorted_insert_by)

lemma sorted_slice0: "sorted_wrt P xs \<Longrightarrow> sorted_wrt P (slice0 xs n)"
  by (simp add: slice0_def sorted_wrt_take)

lemma length_slice0: "0 \<le> n \<Longrightarrow> int (length (slice0 xs n)) \<le> n"
  by (simp add: slice0_def)

lemma ranked_before_keys:
  "sorted_wrt ranked_before xs \<longleftrightarrow>
   sorted_wrt (\<lambda>p q. fst p > fst q \<or> (fst p = fst q \<and> snd p \<ge> snd q))
     (map (\<lambda>t. (riskScore t, score t)) xs)"
  by (simp add: sorted_wrt_map ranked_before_def [abs_def])

lemma enrich_erased:
  "map (\<lambda>t. t\<lparr>mcpAnalysis := None\<rparr>) (enrichWithMcp analyze (slice0 xs 3) @ drop 3 xs)
   = map (\<lambda>t. t\<lparr>mcpAnalysis := None\<rparr>) xs"
proof -
  have "map (\<lambda>t. t\<lparr>mcpAnalysis := None\<rparr>) (enrichWithMcp analyze ys)
        = map (\<lambda>t. t\<lparr>mcpAnalysis := None\<rparr>) ys" for ys
    by (simp add: enrichWithMcp_def)
  then have "map (\<lambda>t. t\<lparr>mcpAnalysis := None\<rparr>) (enrichWithMcp analyze (take 3 xs) @ drop 3 xs)
        = map (\<lambda>t. t\<lparr>mcpAnalysis := None\<rparr>) (take 3 xs @ drop 3 xs)"
    by (simp only: map_append)
  then show ?thesis by (simp add: slice0_def)
qed

lemma scoreSignals_no_analysis:
  "map (\<lambda>t. t\<lparr>mcpAnalysis := None\<rparr>) (scoreSignals now sigs) = scoreSignals now sigs"
proof -
  have "\<forall>t \<in> set (scoreSignals now sigs). mcpAnalysis t = None"
    by (auto simp: scoreSignals_def set_sort_by score_one_def split: prod.splits)
  then show ?thesis
    by (simp add: map_idI)
qed

lemma erased_keys:
  "map (\<lambda>t. (riskScore t, score t)) (map (\<lambda>t. t\<lparr>mcpAnalysis := None\<rparr>) xs)
   = map (\<lambda>t. (riskScore t, score t)) xs"
  by simp


lemma sorted_of_erased:
  assumes "map (\<lambda>t. t\<lparr>mcpAnalysis := None\<rparr>) out = ys" and "sorted_wrt ranked_before ys"
  shows "sorted_wrt ranked_before out"
proof -
  have "map (\<lambda>t. (riskScore t, score t)) out = map (\<lambda>t. (riskScore t, score t)) ys"
    using erased_keys [of out] assms(1) by simp
  with assms(2) show ?thesis
    by (simp only: ranked_before_keys)
qed

text \<open>
  C10 (as amended). Every scan that returns gives a list sorted by risk score descending,
  ties broken by raw score descending. The list is the sorted list of all scored signals cut
  by \<open>slice(0, limit)\<close> (so the cut comes after the sort), where \<open>limit\<close> is the scan
  option of that name and, only when the option is absent, the trader's configured
  \<open>maxSignalsPerScan\<close>; for a limit that is not negative the list has at most \<open>limit\<close>
  elements.
\<close>

theorem scan_sorted_and_limited:
  assumes "scan fetch analyze tr now opts = Some (out, tr')"
  shows "sorted_wrt ranked_before out
         \<and> (\<forall>n. opt_limit opts = Some n \<longrightarrow> 0 \<le> n \<longrightarrow> int (length out) \<le> n)
         \<and> (opt_limit opts = None \<longrightarrow> 0 \<le> maxSignalsPerScan (riskConfig tr) \<longrightarrow>
              int (length out) \<le> maxSignalsPerScan (riskConfig tr))
         \<and> (\<exists>allSignals.
               fetch_all fetch (override (maxSignalsPerScan (riskConfig tr)) (opt_limit opts))
                 (List.product
                    (filterChains (override [ethereum, base, arbitrum] (opt_chains opts))
                       (merge_risk (riskConfig tr) (riskOverride opts)))
                    (override [accumulation] (opt_modes opts))) = Some allSignals
               \<and> map (\<lambda>t. t\<lparr>mcpAnalysis := None\<rparr>) out =
                   slice0 (scoreSignals now
                             (deduplicateSignals (signalLog tr) now
                                (applyRiskFilters allSignals
                                   (merge_risk (riskConfig tr) (riskOverride opts)))
                                (dedupeWindowMs (merge_risk (riskConfig tr) (riskOverride opts)))))
                     (override (maxSignalsPerScan (riskConfig tr)) (opt_limit opts)))"
proof -
  define lim where "lim = override (maxSignalsPerScan (riskConfig tr)) (opt_limit opts)"
  define eff where "eff = merge_risk (riskConfig tr) (riskOverride opts)"
  define pairs where "pairs = List.product
       (filterChains (override [ethereum, base, arbitrum] (opt_chains opts)) eff)
       (override [accumulation] (opt_modes opts))"
  from assms obtain allSignals where f: "fetch_all fetch lim pairs = Some allSignals"
    by (auto simp: scan_def Let_def lim_def eff_def pairs_def split: option.splits)
  define scored where "scored = scoreSignals now
       (deduplicateSignals (signalLog tr) now (applyRiskFilters allSignals eff) (dedupeWindowMs eff))"
  define top where "top = slice0 scored lim"
  have out: "out = (if override False (opt_analyze opts) \<and> top \<noteq> []
                    then enrichWithMcp analyze (slice0 top 3) @ drop 3 top else top)"
    using assms f
    by (auto simp: scan_def Let_def lim_def eff_def pairs_def scored_def top_def)
  have er: "map (\<lambda>t. t\<lparr>mcpAnalysis := None\<rparr>) out = top"
  proof -
    have "map (\<lambda>t. t\<lparr>mcpAnalysis := None\<rparr>) top = top"
    proof -
      have "\<forall>t \<in> set scored. mcpAnalysis t = None"
        by (auto simp: scored_def scoreSignals_def set_sort_by score_one_def split: prod.splits)
      moreover have "set top \<subseteq> set scored"
        by (auto simp: top_def slice0_def dest: in_set_takeD)
      ultimately show ?thesis
        by (auto intro!: map_idI)
    qed
    then show ?thesis
      using enrich_erased [of analyze top] by (simp add: out)
  qed
  have st: "sorted_wrt ranked_before top"
    by (simp add: top_def scored_def scoreSignals_def sorted_slice0 sorted_sort_by)
  have s: "sorted_wrt ranked_before out"
    using sorted_of_erased [OF er st] .
  have "length out = length top"
    using er by (metis length_map)
  then have len: "0 \<le> lim \<Longrightarrow> int (length out) \<le> lim"
    using length_slice0 [of lim scored] by (simp add: top_def)
  have l1: "\<forall>n. opt_limit opts = Some n \<longrightarrow> 0 \<le> n \<longrightarrow> int (length out) \<le> n"
    using len by (auto simp: lim_def override_def)
  have l2: "opt_limit opts = None \<longrightarrow> 0 \<le> maxSignalsPerScan (riskConfig tr) \<longrightarrow>
              int (length out) \<le> maxSignalsPerScan (riskConfig tr)"
    using len by (auto simp: lim_def override_def)
  from f er have ex: "fetch_all fetch lim pairs = Some allSignals
      \<and> map (\<lambda>t. t\<lparr>mcpAnalysis := None\<rparr>) out = slice0 scored lim"
    by (simp add: top_def)
  show ?thesis
    using s l1 l2 ex unfolding lim_def eff_def pairs_def scored_def by blast
qed

text \<open>
  C10 as stated fails: a trader configured with \<open>maxSignalsPerScan = 1\<close>, asked to scan with
  the option \<open>limit: 2\<close>, returns two signals.
\<close>

theorem scan_exceeds_maxSignalsPerScan:
  "maxSignalsPerScan (riskConfig limit_trader) = 1
   \<and> map token (fst (the (scan limit_fetch example_analyze limit_trader 1000
                             (scenario_options\<lparr>opt_limit := Some 2\<rparr>))))
       = [''0xdef'', ''0xabc'']"
  by (simp add: scan_def Let_def limit_trader_def limit_fetch_def example_trader_def
      scenario_options_def override_def merge_risk_def filterChains_def DEFAULT_RISK_CONFIG_def
      applyRiskFilters_def passesRiskFilters_def example_candidate_def scenario_metrics_def
      truthy_def deduplicateSignals_def hasRecentSignal_def new_SignalLog_def map_values_def
      map_get_def dedupe_key_def scoreSignals_def sort_by_def score_one_def risk_assessment_def
      recommend_def compareSignals_def slice0_def)


theorem scan_sorted_and_limited_witness:
  "scan limit_fetch example_analyze limit_trader 1000 scenario_options \<noteq> None
   \<and> sorted_wrt ranked_before
         (fst (the (scan limit_fetch example_analyze limit_trader 1000 scenario_options)))
   \<and> int (length (fst (the (scan limit_fetch example_analyze limit_trader 1000
                                 scenario_options)))) \<le> 1"
proof -
  obtain out tr' where
    s: "scan limit_fetch example_analyze limit_trader 1000 scenario_options = Some (out, tr')"
    by (simp add: scan_def Let_def limit_fetch_def scenario_options_def override_def
        limit_trader_def example_trader_def filterChains_def merge_risk_def
        DEFAULT_RISK_CONFIG_def)
  have n: "opt_limit scenario_options = None"
    and m: "maxSignalsPerScan (riskConfig limit_trader) = 1"
    by (simp_all add: scenario_options_def limit_trader_def example_trader_def)
  from scan_sorted_and_limited [OF s] n m
  have "sorted_wrt ranked_before out \<and> int (length out) \<le> 1"
    by simp
  with s show ?thesis by simp
qed

section \<open>Determinism of the scoring stage\<close>

lemma dedupe_loop_cong:
  "\<forall>s \<in> set ss. p s = q s \<Longrightarrow> dedupe_loop p seen ss = dedupe_loop q seen ss"
  by (induction ss arbitrary: seen) (auto split: option.splits)

lemma insert_by_map:
  assumes "\<And>a b. cmp (f a) (f b) = cmp a b"
  shows "map f (insert_by cmp x xs) = insert_by cmp (f x) (map f xs)"
  by (induction xs) (auto simp: assms)

lemma sort_by_map:
  assumes "\<And>a b. cmp (f a) (f b) = cmp a b"
  shows "map f (sort_by cmp xs) = sort_by cmp (map f xs)"
proof (induction xs)
  case Nil
  then show ?case by (simp add: sort_by_def)
next
  case (Cons x xs)
  have "map f (sort_by cmp (x # xs)) = map f (insert_by cmp x (sort_by cmp xs))"
    by (simp add: sort_by_def)
  also have "\<dots> = insert_by cmp (f x) (map f (sort_by cmp xs))"
    using assms by (rule insert_by_map)
  also have "\<dots> = sort_by cmp (map f (x # xs))"
    by (simp add: sort_by_def Cons.IH [unfolded sort_by_def])
  finally show ?case .
qed

lemma compareSignals_loggedAt:
  "compareSignals (a\<lparr>loggedAt := u\<rparr>) (b\<lparr>loggedAt := u\<rparr>) = compareSignals a b"
  by (simp add: compareSignals_def)

lemma score_one_loggedAt: "(score_one ta s)\<lparr>loggedAt := u\<rparr> = (score_one tb s)\<lparr>loggedAt := u\<rparr>"
  by (simp add: score_one_def split: prod.splits)

lemma scoreSignals_loggedAt:
  "map (\<lambda>t. t\<lparr>loggedAt := 0\<rparr>) (scoreSignals t1 sigs)
   = map (\<lambda>t. t\<lparr>loggedAt := 0\<rparr>) (scoreSignals t2 sigs)"
proof -
  have a: "map (\<lambda>t. t\<lparr>loggedAt := 0\<rparr>) (scoreSignals t sigs)
        = sort_by compareSignals (map (\<lambda>s. (score_one t s)\<lparr>loggedAt := 0\<rparr>) sigs)" for t
    unfolding scoreSignals_def
    by (subst sort_by_map) (simp_all add: compareSignals_loggedAt comp_def)
  have b: "map (\<lambda>s. (score_one t1 s)\<lparr>loggedAt := 0\<rparr>) sigs
                 = map (\<lambda>s. (score_one t2 s)\<lparr>loggedAt := 0\<rparr>) sigs"
    by (rule map_cong [OF refl]) (rule score_one_loggedAt)
  show ?thesis
    by (simp only: a b)
qed

text \<open>
  C6 (as amended). Two runs of the stage (threshold filter, deduplication, scoring) over the
  same candidates with the same risk configuration, made with any two logs and at any two
  clock readings for which the recent-signal test gives the same answer on every candidate,
  produce outputs that agree in every field except \<open>loggedAt\<close>; and \<open>loggedAt\<close> of every
  output is the clock reading of its run (so runs at one clock reading agree in that field
  as well).
\<close>

theorem scoring_determined_up_to_loggedAt:
  fixes cands :: "'a OpportunitySignal_scheme list"
  assumes "\<forall>c \<in> set cands. hasRecentSignal l1 t1 c (dedupeWindowMs risk)
                             = hasRecentSignal l2 t2 c (dedupeWindowMs risk)"
  shows "map (\<lambda>t. t\<lparr>loggedAt := 0\<rparr>)
           (scoreSignals t1 (deduplicateSignals l1 t1 (applyRiskFilters cands risk)
                               (dedupeWindowMs risk)))
         = map (\<lambda>t. t\<lparr>loggedAt := 0\<rparr>)
             (scoreSignals t2 (deduplicateSignals l2 t2 (applyRiskFilters cands risk)
                                 (dedupeWindowMs risk)))
         \<and> (\<forall>t \<in> set (scoreSignals t1 (deduplicateSignals l1 t1 (applyRiskFilters cands risk)
                                           (dedupeWindowMs risk))). loggedAt t = t1)"
proof
  have "\<forall>c \<in> set (applyRiskFilters cands risk).
          hasRecentSignal l1 t1 c (dedupeWindowMs risk) = hasRecentSignal l2 t2 c (dedupeWindowMs risk)"
    using assms by (simp add: applyRiskFilters_def)
  then have "deduplicateSignals l1 t1 (applyRiskFilters cands risk) (dedupeWindowMs risk)
             = deduplicateSignals l2 t2 (applyRiskFilters cands risk) (dedupeWindowMs risk)"
    unfolding deduplicateSignals_def
    by (simp add: dedupe_loop_cong [where p = "\<lambda>s. hasRecentSignal l1 t1 s (dedupeWindowMs risk)"
          and q = "\<lambda>s. hasRecentSignal l2 t2 s (dedupeWindowMs risk)"])
  then show "map (\<lambda>t. t\<lparr>loggedAt := 0\<rparr>)
           (scoreSignals t1 (deduplicateSignals l1 t1 (applyRiskFilters cands risk)
                               (dedupeWindowMs risk)))
         = map (\<lambda>t. t\<lparr>loggedAt := 0\<rparr>)
             (scoreSignals t2 (deduplicateSignals l2 t2 (applyRiskFilters cands risk)
                                 (dedupeWindowMs risk)))"
    using scoreSignals_loggedAt [of t1 _ t2] by simp
next
  show "\<forall>t \<in> set (scoreSignals t1 (deduplicateSignals l1 t1 (applyRiskFilters cands risk)
                                           (dedupeWindowMs risk))). loggedAt t = t1"
    by (auto simp: scoreSignals_def set_sort_by score_one_def split: prod.splits)
qed

text \<open>
  C6 as stated fails: the same candidate list, the same configuration and the same (empty)
  log, scored at clock readings 1000 and 2000, give different outputs.
\<close>

theorem scoring_depends_on_clock:
  "scoreSignals 1000 (deduplicateSignals (new_SignalLog True) 1000
       (applyRiskFilters [example_candidate] DEFAULT_RISK_CONFIG)
       (dedupeWindowMs DEFAULT_RISK_CONFIG))
   \<noteq> scoreSignals 2000 (deduplicateSignals (new_SignalLog True) 2000
       (applyRiskFilters [example_candidate] DEFAULT_RISK_CONFIG)
       (dedupeWindowMs DEFAULT_RISK_CONFIG))"
  by (simp add: applyRiskFilters_def passesRiskFilters_def example_candidate_def scenario_metrics_def
      truthy_def deduplicateSignals_def hasRecentSignal_def new_SignalLog_def map_values_def
      map_get_def dedupe_key_def scoreSignals_def sort_by_def score_one_def risk_assessment_def
      recommend_def DEFAULT_RISK_CONFIG_def)

theorem scoring_determined_up_to_loggedAt_witness:
  "map (\<lambda>t. t\<lparr>loggedAt := 0\<rparr>)
     (scoreSignals 1000 (deduplicateSignals (new_SignalLog True) 1000
         (applyRiskFilters [example_candidate] DEFAULT_RISK_CONFIG)
         (dedupeWindowMs DEFAULT_RISK_CONFIG)))
   = map (\<lambda>t. t\<lparr>loggedAt := 0\<rparr>)
       (scoreSignals 2000 (deduplicateSignals (new_SignalLog False) 2000
           (applyRiskFilters [example_candidate] DEFAULT_RISK_CONFIG)
           (dedupeWindowMs DEFAULT_RISK_CONFIG)))
   \<and> map loggedAt
       (scoreSignals 1000 (deduplicateSignals (new_SignalLog True) 1000
           (applyRiskFilters [example_candidate] DEFAULT_RISK_CONFIG)
           (dedupeWindowMs DEFAULT_RISK_CONFIG))) = [1000]"
proof -
  have h: "\<forall>c \<in> set [example_candidate].
             hasRecentSignal (new_SignalLog True) 1000 c (dedupeWindowMs DEFAULT_RISK_CONFIG)
             = hasRecentSignal (new_SignalLog False) 2000 c (dedupeWindowMs DEFAULT_RISK_CONFIG)"
    by (simp add: hasRecentSignal_def new_SignalLog_def map_values_def)
  have l: "length (scoreSignals 1000 (deduplicateSignals (new_SignalLog True) 1000
           (applyRiskFilters [example_candidate] DEFAULT_RISK_CONFIG)
           (dedupeWindowMs DEFAULT_RISK_CONFIG))) = 1"
    by (simp add: scoreSignals_def length_sort_by applyRiskFilters_def passesRiskFilters_def
        example_candidate_def scenario_metrics_def truthy_def deduplicateSignals_def
        hasRecentSignal_def new_SignalLog_def map_values_def map_get_def DEFAULT_RISK_CONFIG_def)
  from scoring_determined_up_to_loggedAt [OF h] l
  show ?thesis
    by (auto simp: length_Suc_conv)
qed

section \<open>Evolution of a logged signal\<close>


















section \<open>Cache\<close>

lemma effective_ttl_given: "n \<noteq> 0 \<Longrightarrow> effective_ttl c (Some n) = n"
  by (simp add: effective_ttl_def)

lemma effective_ttl_cache_get: "effective_ttl (snd (cache_get c t key)) ttl = effective_ttl c ttl"
  by (simp add: effective_ttl_def cache_get_def split: option.splits)

lemma cache_get_miss_again:
  "fst (cache_get c t key) = None \<Longrightarrow> fst (cache_get (snd (cache_get c t key)) t' key) = None"
  by (auto simp: cache_get_def split: option.splits if_splits)

lemma getOrFetch_miss:
  assumes "fst (cache_get c t1 key) = None" and "f t1 w = (Resolved (Some v), ts, w1)"
  shows "getOrFetch c key (counted f) ttl credits t1 (w, n) =
           (Resolved (Some v), cache_set (snd (cache_get c t1 key)) ts key (Some v) ttl credits,
            ts, (w1, Suc n))"
  using assms by (cases "cache_get c t1 key") (simp add: getOrFetch_def counted_def settle_def)

lemma getOrFetch_hit:
  assumes "store c key = Some e" and "data e = Some v" and "\<not> t > expiry e"
  shows "\<exists>c'. getOrFetch c key f ttl credits t w = (Resolved (Some v), c', t, w)"
  using assms by (simp add: getOrFetch_def cache_get_def)

lemma getOrFetch_expired:
  assumes "store c key = Some e" and "t > expiry e"
  shows "\<exists>c'. getOrFetch c key (counted f) ttl credits t (w, n) =
           (fst (f t w), c', fst (snd (f t w)), (snd (snd (f t w)), Suc n))"
proof (cases "f t w")
  case (fields r t' w')
  with assms show ?thesis
    by (simp add: getOrFetch_def cache_get_def counted_def)
qed

text \<open>Two calls, the second made after the first has returned, are the two calls in turn.\<close>

lemma getOrFetch_twice_in_turn:
  assumes "getOrFetch c key f ttl credits t1 w = (r, c', ts, w')" and "ts \<le> t2"
  shows "getOrFetch_twice c key f ttl credits t1 t2 w = getOrFetch c' key f ttl credits t2 w'"
proof (cases "cache_get c t1 key")
  case (Pair cached1 c1)
  show ?thesis
  proof (cases "f t1 w")
    case (fields r1 ts1 w1)
    show ?thesis
    proof (cases cached1)
      case None
      with Pair fields assms(1) have "ts = ts1"
        by (simp add: getOrFetch_def)
      with Pair fields assms show ?thesis
        by (simp add: getOrFetch_twice_def)
    next
      case (Some v)
      with Pair fields assms show ?thesis
        by (simp add: getOrFetch_twice_def)
    qed
  qed
qed

text \<open>Two calls, the second made while the fetch of the first is pending, both fetch.\<close>

lemma getOrFetch_twice_overlapping:
  assumes miss: "fst (cache_get c t1 key) = None" and f1: "f t1 w = (r1, ts, w1)"
    and pending: "t2 < ts"
  shows "\<exists>c2. getOrFetch_twice c key (counted f) ttl credits t1 t2 (w, n)
              = (fst (f t2 w1), c2, fst (snd (f t2 w1)), (snd (snd (f t2 w1)), Suc (Suc n)))"
proof -
  obtain c1 where g1: "cache_get c t1 key = (None, c1)"
    using miss by (cases "cache_get c t1 key") simp
  from cache_get_miss_again [OF miss, of t2] g1
  obtain c2 where g2: "cache_get c1 t2 key = (None, c2)"
    by (cases "cache_get c1 t2 key") simp
  obtain r2 ts2 w2 where f2: "f t2 w1 = (r2, ts2, w2)"
    by (cases "f t2 w1") auto
  from g1 g2 f1 f2 pending show ?thesis
    by (simp add: getOrFetch_twice_def counted_def)
qed

text \<open>
  C8 (as amended). The cache holds no usable entry for the key when \<open>getOrFetch\<close> is first
  called, and the fetcher then resolves with a value other than \<open>undefined\<close>, which is
  stored at clock reading \<open>ts\<close>, when the first call returns. Let the effective TTL be \<open>ttl\<close>
  when it is given and not zero, and the default TTL of the cache otherwise. A second call
  made after the first has returned and no later than the effective TTL after \<open>ts\<close> returns
  the cached value without invoking the fetcher (one invocation in all, the world
  untouched). A second call made later than the effective TTL after \<open>ts\<close> invokes the
  fetcher again (two invocations in all) and returns what it settles with; and so does a
  second call made before \<open>ts\<close>, while the first fetch is still pending.
\<close>

theorem getOrFetch_fetches_once_per_ttl:
  assumes miss: "fst (cache_get c ta key) = None"
    and fetched: "f ta w = (Resolved (Some v), ts, w')"
  shows "(ts \<le> tb \<and> tb \<le> ts + effective_ttl c ttl \<longrightarrow>
            (\<exists>c2. getOrFetch_twice c key (counted f) ttl credits ta tb (w, 0)
                   = (Resolved (Some v), c2, tb, (w', 1))))
         \<and> (ts \<le> tb \<and> tb > ts + effective_ttl c ttl \<longrightarrow>
            (\<exists>c2. getOrFetch_twice c key (counted f) ttl credits ta tb (w, 0)
                   = (fst (f tb w'), c2, fst (snd (f tb w')), (snd (snd (f tb w')), 2))))
         \<and> (tb < ts \<longrightarrow>
            (\<exists>c2. getOrFetch_twice c key (counted f) ttl credits ta tb (w, 0)
                   = (fst (f tb w'), c2, fst (snd (f tb w')), (snd (snd (f tb w')), 2))))
         \<and> (\<forall>n. ttl = Some n \<longrightarrow> n \<noteq> 0 \<longrightarrow> effective_ttl c ttl = n)"
proof -
  define c1 where "c1 = cache_set (snd (cache_get c ta key)) ts key (Some v) ttl credits"
  define e where "e = \<lparr>data = Some v, expiry = ts + effective_ttl c ttl, hits = 0\<rparr>"
  have first: "getOrFetch c key (counted f) ttl credits ta (w, 0)
               = (Resolved (Some v), c1, ts, (w', Suc 0))"
    unfolding c1_def using miss fetched by (rule getOrFetch_miss)
  have st: "store c1 key = Some e"
    by (simp add: c1_def e_def cache_set_def effective_ttl_cache_get)
  have twice: "getOrFetch_twice c key (counted f) ttl credits ta tb (w, 0)
               = getOrFetch c1 key (counted f) ttl credits tb (w', Suc 0)" if "ts \<le> tb"
    using first that by (rule getOrFetch_twice_in_turn)
  have a: "ts \<le> tb \<and> tb \<le> ts + effective_ttl c ttl \<longrightarrow>
            (\<exists>c2. getOrFetch_twice c key (counted f) ttl credits ta tb (w, 0)
                   = (Resolved (Some v), c2, tb, (w', 1)))"
    using getOrFetch_hit [OF st, of v tb "counted f" ttl credits "(w', Suc 0)"]
    by (simp add: twice e_def)
  have b: "ts \<le> tb \<and> tb > ts + effective_ttl c ttl \<longrightarrow>
            (\<exists>c2. getOrFetch_twice c key (counted f) ttl credits ta tb (w, 0)
                   = (fst (f tb w'), c2, fst (snd (f tb w')), (snd (snd (f tb w')), 2)))"
    using getOrFetch_expired [OF st, of tb f ttl credits w' "Suc 0"]
    by (simp add: twice e_def numeral_2_eq_2)
  have c: "tb < ts \<longrightarrow>
            (\<exists>c2. getOrFetch_twice c key (counted f) ttl credits ta tb (w, 0)
                   = (fst (f tb w'), c2, fst (snd (f tb w')), (snd (snd (f tb w')), 2)))"
    using getOrFetch_twice_overlapping [where f = f and n = 0 and ttl = ttl
        and credits = credits, OF miss fetched]
    by (simp add: numeral_2_eq_2)
  from a b c show ?thesis
    by (simp add: effective_ttl_given)
qed

text \<open>
  C8 as stated fails in four ways. With \<open>ttl = 0\<close> the entry lives for the default TTL, so
  a second call 1000 ms later (the ttl of 0 long elapsed) does not invoke the fetcher again.
  A fetcher that rejects, or that resolves with \<open>undefined\<close>, leaves nothing that a later
  call accepts, so two calls within the ttl invoke it twice. And a second call made 2 ms
  after the first, while its fetch of 5 ms is pending, finds nothing stored and invokes the
  fetcher again, well within the ttl.
\<close>

theorem getOrFetch_unlike_claim:
  "invocations (getOrFetch_twice (new_Cache 60000) ''scan:chain=base''
       (counted (const_fetcher 5 (Resolved (Some ''data'')))) (Some 0) 1 0 1000 ((), 0)) = 1
   \<and> invocations (getOrFetch_twice (new_Cache 60000) ''scan:chain=base''
       (counted (const_fetcher 5 (Rejected ''HTTP 500'') :: (string, unit) fetcher))
       (Some 60000) 1 0 10 ((), 0)) = 2
   \<and> invocations (getOrFetch_twice (new_Cache 60000) ''scan:chain=base''
       (counted (const_fetcher 5 (Resolved None) :: (string, unit) fetcher))
       (Some 60000) 1 0 10 ((), 0)) = 2
   \<and> invocations (getOrFetch_twice (new_Cache 60000) ''scan:chain=base''
       (counted (const_fetcher 5 (Resolved (Some ''data'')))) (Some 60000) 1 0 2 ((), 0)) = 2"
  by (simp add: invocations_def getOrFetch_twice_def getOrFetch_def cache_get_def cache_set_def
      settle_def new_Cache_def counted_def const_fetcher_def effective_ttl_def)

theorem getOrFetch_fetches_once_per_ttl_witness:
  "fst (cache_get (new_Cache 60000 :: string Cache) 0 ''scan:chain=base'') = None
   \<and> invocations (getOrFetch_twice (new_Cache 60000) ''scan:chain=base''
       (counted (const_fetcher 5 (Resolved (Some ''data'')))) (Some 30000) 1 0 30005 ((), 0)) = 1
   \<and> invocations (getOrFetch_twice (new_Cache 60000) ''scan:chain=base''
       (counted (const_fetcher 5 (Resolved (Some ''data'')))) (Some 30000) 1 0 30006 ((), 0)) = 2
   \<and> invocations (getOrFetch_twice (new_Cache 60000) ''scan:chain=base''
       (counted (const_fetcher 5 (Resolved (Some ''data'')))) (Some 30000) 1 0 4 ((), 0)) = 2
   \<and> effective_ttl (new_Cache 60000 :: string Cache) (Some 30000) = 30000"
proof -
  have m: "fst (cache_get (new_Cache 60000 :: string Cache) 0 ''scan:chain=base'') = None"
    by (simp add: cache_get_def new_Cache_def)
  have f: "const_fetcher 5 (Resolved (Some ''data'')) 0 () = (Resolved (Some ''data''), 5, ())"
    by (simp add: const_fetcher_def)
  have e: "effective_ttl (new_Cache 60000 :: string Cache) (Some 30000) = 30000"
    by (simp add: effective_ttl_def)
  from getOrFetch_fetches_once_per_ttl [where c = "new_Cache 60000"
      and f = "const_fetcher 5 (Resolved (Some ''data''))"
      and tb = 30005 and ttl = "Some 30000" and credits = 1, OF m f]
    getOrFetch_fetches_once_per_ttl [where c = "new_Cache 60000"
      and f = "const_fetcher 5 (Resolved (Some ''data''))"
      and tb = 30006 and ttl = "Some 30000" and credits = 1, OF m f]
    getOrFetch_fetches_once_per_ttl [where c = "new_Cache 60000"
      and f = "const_fetcher 5 (Resolved (Some ''data''))"
      and tb = 4 and ttl = "Some 30000" and credits = 1, OF m f]
  show ?thesis
    using m e by (auto simp: invocations_def)
qed

section \<open>Rate limiter: conservation of tokens\<close>

lemma tokens_refill: "tokens (refill r now) \<le> maxTokens (config r)"
  by (simp add: refill_def Let_def)

lemma config_refill [simp]: "config (refill r now) = config r"
  by (simp add: refill_def Let_def)

lemma acquire_loop_exit:
  assumes "acquire_loop wake cost r now waitTime = Some y"
  shows "\<not> tokens (fst y) < cost \<and> config (fst y) = config r
         \<and> (tokens r \<le> maxTokens (config r) \<longrightarrow> tokens (fst y) \<le> maxTokens (config r))
         \<and> (\<not> tokens r < cost \<longrightarrow> y = (r, now, waitTime))"
proof (rule acquire_loop.raw_induct
    [where P = "\<lambda>wake cost r now waitTime y.
        \<not> tokens (fst y) < cost \<and> config (fst y) = config r
         \<and> (tokens r \<le> maxTokens (config r) \<longrightarrow> tokens (fst y) \<le> maxTokens (config r))
         \<and> (\<not> tokens r < cost \<longrightarrow> y = (r, now, waitTime))", OF _ assms])
  fix loop :: "(int \<Rightarrow> real \<Rightarrow> int) \<Rightarrow> real \<Rightarrow> RateLimiter \<Rightarrow> int \<Rightarrow> real \<Rightarrow> (RateLimiter \<times> int \<times> real) option"
    and wake cost r now waitTime y
  assume IH: "\<And>wake cost r now waitTime y. loop wake cost r now waitTime = Some y \<Longrightarrow>
        \<not> tokens (fst y) < cost \<and> config (fst y) = config r
         \<and> (tokens r \<le> maxTokens (config r) \<longrightarrow> tokens (fst y) \<le> maxTokens (config r))
         \<and> (\<not> tokens r < cost \<longrightarrow> y = (r, now, waitTime))"
    and body: "(if tokens r < cost
      then let r1 = r\<lparr>throttledRequests := throttledRequests r + 1\<rparr>;
               tokensNeeded = cost - tokens r1;
               waitForTokens = tokensNeeded / refillRate (config r1) * 1000;
               delay = real_of_int \<lceil>waitForTokens\<rceil> + 10;
               now' = wake now delay
           in loop wake cost (refill r1 now') now' (waitTime + delay)
      else Some (r, now, waitTime)) = Some y"
  show "\<not> tokens (fst y) < cost \<and> config (fst y) = config r
         \<and> (tokens r \<le> maxTokens (config r) \<longrightarrow> tokens (fst y) \<le> maxTokens (config r))
         \<and> (\<not> tokens r < cost \<longrightarrow> y = (r, now, waitTime))"
  proof (cases "tokens r < cost")
    case True
    define r1 where "r1 = r\<lparr>throttledRequests := throttledRequests r + 1\<rparr>"
    define delay where
      "delay = real_of_int \<lceil>(cost - tokens r1) / refillRate (config r1) * 1000\<rceil> + 10"
    from body True
    have rec: "loop wake cost (refill r1 (wake now delay)) (wake now delay)
                 (waitTime + delay) = Some y"
      by (simp add: Let_def r1_def delay_def)
    from IH [OF rec] tokens_refill [of r1 "wake now delay"] True
    show ?thesis
      by (simp add: r1_def)
  next
    case False
    with body have "y = (r, now, waitTime)" by simp
    with False show ?thesis by simp
  qed
qed


lemma acquire_start_state:
  assumes "acquire_start wake r now = (r1, now1, wt)"
  shows "tokens r1 = tokens (refill r now) \<and> config r1 = config r \<and> lastRefill r1 = now"
  using assms by (auto simp: acquire_start_def refill_def Let_def split: if_splits)

lemma acquire_deducts:
  assumes "acquire wake r now cost = Some (wt, r', now')"
  shows "\<exists>rd. acquire_ready wake r now cost = Some (rd, now', wt)
           \<and> tokens r' = tokens rd - cost \<and> cost \<le> tokens rd
           \<and> tokens rd \<le> maxTokens (config r) \<and> config r' = config r
           \<and> (cost \<le> tokens (refill r now) \<longrightarrow> tokens rd = tokens (refill r now))"
proof -
  from assms obtain rd where rd: "acquire_ready wake r now cost = Some (rd, now', wt)"
    and r': "r' = rd\<lparr>tokens := tokens rd - cost, lastRequest := now',
                     totalWaitTimeMs := totalWaitTimeMs rd + wt\<rparr>"
    by (auto simp: acquire_def split: option.splits)
  obtain r1 now1 wt1 where s: "acquire_start wake r now = (r1, now1, wt1)"
    by (cases "acquire_start wake r now") auto
  with rd have loop: "acquire_loop wake cost r1 now1 wt1 = Some (rd, now', wt)"
    by (simp add: acquire_ready_def)
  from acquire_start_state [OF s] have r1: "tokens r1 = tokens (refill r now)"
    "config r1 = config r" by simp_all
  have "tokens r1 \<le> maxTokens (config r1)"
    using tokens_refill [of r now] r1 by simp
  with acquire_loop_exit [OF loop] r1
  have "\<not> tokens rd < cost \<and> config rd = config r \<and> tokens rd \<le> maxTokens (config r)
        \<and> (cost \<le> tokens (refill r now) \<longrightarrow> tokens rd = tokens (refill r now))"
    by auto
  with rd r' show ?thesis by simp
qed

lemma limiter_step_bounded:
  assumes "0 \<le> op_cost p" and "limiter_step wake r now p = Some r'"
  shows "tokens r' \<le> maxTokens (config r') \<and> config r' = config r"
proof (cases p)
  case (Acquire c)
  with assms obtain wt now' where "acquire wake r now c = Some (wt, r', now')"
    by auto
  from acquire_deducts [OF this] assms(1) Acquire show ?thesis
    by auto
next
  case (CanAcquire c)
  with assms tokens_refill [of r now] show ?thesis
    by (auto simp: canAcquire_def)
next
  case GetStats
  with assms tokens_refill [of r now] show ?thesis
    by (auto simp: getStats_def Let_def)
next
  case Reset
  with assms show ?thesis
    by (auto simp: reset_def)
qed

lemma limiter_run_bounded:
  assumes "tokens r \<le> maxTokens (config r)"
    and "list_all (\<lambda>tp. 0 \<le> op_cost (snd tp)) ops"
    and "limiter_run wake r ops = Some r'"
  shows "tokens r' \<le> maxTokens (config r') \<and> config r' = config r"
  using assms
proof (induction ops arbitrary: r)
  case Nil
  then show ?case by simp
next
  case (Cons tp ops)
  obtain now p where tp: "tp = (now, p)" by (cases tp)
  from Cons.prems tp obtain r1 where step: "limiter_step wake r now p = Some r1"
    and run: "limiter_run wake r1 ops = Some r'"
    by (auto split: option.splits)
  from Cons.prems tp have c: "0 \<le> op_cost p" by simp
  from limiter_step_bounded [OF c step]
  have b: "tokens r1 \<le> maxTokens (config r1)" and cfg: "config r1 = config r" by auto
  from Cons.IH [OF b _ run] Cons.prems(2) cfg show ?case by auto
qed

lemma new_RateLimiter_full:
  "tokens (new_RateLimiter mt rr md t0) = maxTokens (config (new_RateLimiter mt rr md t0))"
  by (simp add: new_RateLimiter_def)


text \<open>\<open>acquire\<close> does return when the refill rate is positive, the cost is within the
  capacity of the bucket and no sleeper is woken early: one pass of the loop is enough.\<close>

lemma acquire_loop_returns:
  assumes rate: "0 < refillRate (config r)" and cost: "cost \<le> maxTokens (config r)"
    and wake: "\<And>t d. real_of_int t + d \<le> real_of_int (wake t d)"
    and last: "lastRefill r \<le> now"
  shows "\<exists>y. acquire_loop wake cost r now waitTime = Some y"
proof (cases "tokens r < cost")
  case False
  then show ?thesis
    by (subst acquire_loop.simps) simp
next
  case True
  define r1 where "r1 = r\<lparr>throttledRequests := throttledRequests r + 1\<rparr>"
  define x where "x = (cost - tokens r1) / refillRate (config r1) * 1000"
  define delay where "delay = real_of_int \<lceil>x\<rceil> + 10"
  define now' where "now' = wake now delay"
  have unfold1: "acquire_loop wake cost r now waitTime
                 = acquire_loop wake cost (refill r1 now') now' (waitTime + delay)"
    using True
    by (subst acquire_loop.simps) (simp add: Let_def r1_def x_def delay_def now'_def)
  have "x \<le> delay"
    unfolding delay_def by linarith
  also have "delay \<le> real_of_int now' - real_of_int now"
    using wake [of now delay] by (simp add: now'_def)
  also have "\<dots> \<le> real_of_int (now' - lastRefill r1)"
    using last by (simp add: r1_def)
  finally have "x / 1000 * refillRate (config r) \<le>
                real_of_int (now' - lastRefill r1) / 1000 * refillRate (config r)"
    using rate by (simp add: divide_right_mono mult_right_mono)
  moreover have "x / 1000 * refillRate (config r) = cost - tokens r"
    using rate by (simp add: x_def r1_def)
  ultimately have "cost \<le> tokens r + real_of_int (now' - lastRefill r1) / 1000 * refillRate (config r)"
    by simp
  with cost have "\<not> tokens (refill r1 now') < cost"
    by (simp add: refill_def Let_def r1_def)
  then have "acquire_loop wake cost (refill r1 now') now' (waitTime + delay)
             = Some (refill r1 now', now', waitTime + delay)"
    by (subst acquire_loop.simps) simp
  with unfold1 show ?thesis by simp
qed

lemma acquire_start_time:
  assumes s: "acquire_start wake r now = (r1, now1, wt)"
    and wake: "\<And>t d. real_of_int t + d \<le> real_of_int (wake t d)"
  shows "now \<le> now1"
proof -
  define r0 where "r0 = refill (r\<lparr>totalRequests := totalRequests r + 1\<rparr>) now"
  define d where "d = minDelayMs (config r0) - real_of_int (now - lastRequest r0)"
  have "now1 = (if 0 < d then wake now d else now)"
    using s by (auto simp: acquire_start_def Let_def r0_def d_def split: if_splits)
  moreover have "real_of_int now \<le> real_of_int (wake now d)" if "0 < d"
    using wake [of now d] that by simp
  ultimately show ?thesis
    by (auto split: if_splits)
qed

lemma acquire_returns:
  assumes rate: "0 < refillRate (config r)" and cost: "cost \<le> maxTokens (config r)"
    and wake: "\<And>t d. real_of_int t + d \<le> real_of_int (wake t d)"
  shows "\<exists>res. acquire wake r now cost = Some res"
proof -
  obtain r1 now1 wt1 where s: "acquire_start wake r now = (r1, now1, wt1)"
    by (cases "acquire_start wake r now") auto
  from acquire_start_state [OF s] have r1: "config r1 = config r" "lastRefill r1 = now"
    by simp_all
  have "now \<le> now1"
    using s wake by (rule acquire_start_time)
  with r1 rate cost wake
  obtain y where "acquire_loop wake cost r1 now1 wt1 = Some y"
    using acquire_loop_returns [of r1 cost wake now1 wt1] by auto
  with s show ?thesis
    by (cases y) (simp add: acquire_def acquire_ready_def)
qed

lemma punctual_wakes: "real_of_int t + d \<le> real_of_int (punctual t d)"
  unfolding punctual_def by simp

text \<open>
  C9 (as amended). Start from a limiter whose bucket holds at most \<open>maxTokens\<close> (the
  constructor fills it to exactly that) and run any sequence of \<open>acquire\<close>, \<open>canAcquire\<close>,
  \<open>getStats\<close> and \<open>reset\<close> calls, at any clock readings, in which no \<open>acquire\<close> has a
  negative cost and every call returns. Then the bucket still holds at most \<open>maxTokens\<close>,
  which has not changed. Every \<open>acquire(cost)\<close> that returns leaves exactly \<open>cost\<close> tokens
  fewer than the bucket held, after its last refill, when the deduction was made; that
  balance was at least \<open>cost\<close> and at most \<open>maxTokens\<close>, and it is the balance of the refill
  made on entry when that one already covered the cost (no wait for tokens).
\<close>

theorem limiter_token_conservation:
  assumes start: "tokens r \<le> maxTokens (config r)"
    and costs: "list_all (\<lambda>tp. 0 \<le> op_cost (snd tp)) ops"
    and run: "limiter_run wake r ops = Some r'"
  shows "tokens r' \<le> maxTokens (config r') \<and> maxTokens (config r') = maxTokens (config r)
         \<and> (acquire wake r' now cost = Some (wt, r'', now') \<longrightarrow>
              (\<exists>rd. acquire_ready wake r' now cost = Some (rd, now', wt)
                 \<and> tokens r'' = tokens rd - cost \<and> cost \<le> tokens rd
                 \<and> tokens rd \<le> maxTokens (config r)
                 \<and> (cost \<le> tokens (refill r' now) \<longrightarrow> tokens rd = tokens (refill r' now))))"
proof -
  from limiter_run_bounded [OF start costs run]
  have b: "tokens r' \<le> maxTokens (config r')" and c: "config r' = config r" by auto
  have "\<exists>rd. acquire_ready wake r' now cost = Some (rd, now', wt)
                 \<and> tokens r'' = tokens rd - cost \<and> cost \<le> tokens rd
                 \<and> tokens rd \<le> maxTokens (config r)
                 \<and> (cost \<le> tokens (refill r' now) \<longrightarrow> tokens rd = tokens (refill r' now))"
    if "acquire wake r' now cost = Some (wt, r'', now')"
    using acquire_deducts [OF that] c by auto
  with b c show ?thesis by simp
qed

text \<open>
  C9 as stated fails: on a new limiter with the default \<open>maxTokens = 10\<close>, \<open>acquire(-1)\<close>
  returns at once and leaves 11 tokens in the bucket.
\<close>

theorem acquire_negative_cost_overfills:
  "map_option (tokens \<circ> fst \<circ> snd)
     (acquire punctual (new_RateLimiter None None None 0) 1000 (- 1)) = Some 11
   \<and> maxTokens (config (new_RateLimiter None None None 0)) = 10"
  by (simp add: acquire_def acquire_ready_def acquire_start_def acquire_loop.simps refill_def
      new_RateLimiter_def override_def Let_def)

lemma example_run:
  "limiter_run punctual example_limiter example_ops =
     Some \<lparr>tokens = 9 / 100, lastRefill = 2100, lastRequest = 2010,
           config = \<lparr>maxTokens = 2, refillRate = 1, minDelayMs = 100\<rparr>,
           totalRequests = 2, throttledRequests = 1, totalWaitTimeMs = 810\<rparr>"
  by (simp add: example_limiter_def example_ops_def new_RateLimiter_def override_def
      acquire_def acquire_ready_def acquire_start_def acquire_loop.simps refill_def Let_def
      punctual_def getStats_def)

theorem limiter_token_conservation_witness:
  "tokens example_limiter \<le> maxTokens (config example_limiter)
   \<and> list_all (\<lambda>tp. 0 \<le> op_cost (snd tp)) example_ops
   \<and> limiter_run punctual example_limiter example_ops \<noteq> None
   \<and> tokens (the (limiter_run punctual example_limiter example_ops)) \<le> 2
   \<and> acquire punctual (the (limiter_run punctual example_limiter example_ops)) 3000 1 \<noteq> None
   \<and> map_option (\<lambda>res. tokens (fst res))
        (acquire_ready punctual (the (limiter_run punctual example_limiter example_ops)) 3000 1)
      = Some (101 / 100)
   \<and> map_option (\<lambda>res. tokens (fst (snd res)))
        (acquire punctual (the (limiter_run punctual example_limiter example_ops)) 3000 1)
      = Some (101 / 100 - 1)"
proof -
  define r' where "r' = the (limiter_run punctual example_limiter example_ops)"
  have run: "limiter_run punctual example_limiter example_ops = Some r'"
    by (simp add: r'_def example_run)
  have r': "r' = \<lparr>tokens = 9 / 100, lastRefill = 2100, lastRequest = 2010,
           config = \<lparr>maxTokens = 2, refillRate = 1, minDelayMs = 100\<rparr>,
           totalRequests = 2, throttledRequests = 1, totalWaitTimeMs = 810\<rparr>"
    by (simp add: r'_def example_run)
  have start: "tokens example_limiter \<le> maxTokens (config example_limiter)"
    by (simp add: example_limiter_def new_RateLimiter_def)
  have costs: "list_all (\<lambda>tp. 0 \<le> op_cost (snd tp)) example_ops"
    by (simp add: example_ops_def)
  have mx: "maxTokens (config example_limiter) = 2"
    by (simp add: example_limiter_def new_RateLimiter_def override_def)
  have ready: "acquire_ready punctual r' 3000 1 =
      Some (r'\<lparr>tokens := 101 / 100, lastRefill := 3020, totalRequests := 3,
               throttledRequests := 2\<rparr>, 3020, 20)"
    by (simp add: r' acquire_ready_def acquire_start_def acquire_loop.simps refill_def Let_def
        punctual_def)
  then obtain wt r'' now' where acq: "acquire punctual r' 3000 1 = Some (wt, r'', now')"
    by (simp add: acquire_def)
  from limiter_token_conservation [OF start costs run, of 3000 1 wt r'' now'] acq ready mx
  have "tokens r' \<le> 2 \<and> tokens r'' = 101 / 100 - 1"
    by auto
  with start costs run acq ready show ?thesis
    unfolding r'_def [symmetric] by simp
qed

end
